theory Spec2Isabelle
  imports Complex_Main "HOL-Library.Char_ord" "HOL-Library.List_Lexorder"
begin

section \<open>StrasBoard: the response cache, fetch-with-cache and the sources' freshness policies\<close>

text \<open>
  A shallow embedding of the Go sources \<^verbatim>\<open>source.go\<close>, \<^verbatim>\<open>cache.go\<close>, \<^verbatim>\<open>main.go\<close>,
  \<^verbatim>\<open>source_electricity.go\<close> and of the transport, tempo and temperature sources.

  Conventions of the embedding:
  \<^item> an instant (\<^verbatim>\<open>time.Time\<close>) is an integer count of nanoseconds since the Unix epoch,
    a \<^verbatim>\<open>time.Duration\<close> an integer count of nanoseconds; wall clock and monotonic clock
    are one time line, and the 64-bit range of both is not modelled (the durations of
    the program are constants between twenty seconds and forty-eight hours);
  \<^item> \<^verbatim>\<open>time.Now()\<close> reads an oracle: the environment holds the sequence of all clock
    readings and the number of readings taken so far, so every call of \<^verbatim>\<open>time.Now()\<close>
    in the source is one reading in the model and no two calls need agree;
  \<^item> whatever a source reaches over the network (and the state it keeps about it) is
    the component \<open>upstream\<close> of the environment; an upstream exchange is a function
    from environment to result and environment;
  \<^item> a pointer that may be \<^verbatim>\<open>nil\<close> is an \<open>option\<close>; the payload \<^verbatim>\<open>Data any\<close> is
    \<open>'d option\<close> for a payload type \<open>'d\<close> the cache never inspects;
  \<^item> a mutex-protected method runs atomically: it is one function application.
\<close>

subsection \<open>Time\<close>

type_synonym time = int
type_synonym duration = int

definition Second :: duration where
  "Second = 1000000000"

definition Minute :: duration where
  "Minute = 60 * Second"

definition Hour :: duration where
  "Hour = 60 * Minute"

record 'u env =
  clock :: "nat \<Rightarrow> time"
  ticks :: nat
  upstream :: 'u

text \<open>\<^verbatim>\<open>time.Now()\<close>: the next reading of the clock.\<close>

definition time_Now :: "'u env \<Rightarrow> time \<times> 'u env" where
  "time_Now e = (clock e (ticks e), e\<lparr>ticks := Suc (ticks e)\<rparr>)"

subsection \<open>The civil calendar of package \<^verbatim>\<open>time\<close>\<close>

text \<open>
  The sources use \<^verbatim>\<open>Time.In\<close>, \<^verbatim>\<open>Year\<close>, \<^verbatim>\<open>Month\<close>, \<^verbatim>\<open>Day\<close>, \<^verbatim>\<open>Hour\<close>,
  \<^verbatim>\<open>time.Date\<close>, \<^verbatim>\<open>Time.AddDate\<close> and \<^verbatim>\<open>Time.Format\<close> of the Go standard library.
  A \<^verbatim>\<open>*time.Location\<close> is modelled by its two observable operations: \<open>civil\<close> reads an
  instant as a date and a time of day in the location, and \<open>date\<close> is \<^verbatim>\<open>time.Date\<close> with
  the location as last argument (its arguments may be out of range and are normalised).
  The theorems about the sources hold for every such pair of functions; \<open>FixedZone\<close>
  and \<open>Europe_Paris\<close> below are executable locations on the proleptic Gregorian
  calendar, for the timestamps and for the example inputs.
\<close>

record civil_time =
  Year :: int
  Month :: int
  Day :: int
  Hour_of :: int
  Minute_of :: int
  Second_of :: int
  Nanosecond_of :: int

record Location =
  civil :: "time \<Rightarrow> civil_time"
  date :: "int \<Rightarrow> int \<Rightarrow> int \<Rightarrow> int \<Rightarrow> int \<Rightarrow> int \<Rightarrow> int \<Rightarrow> time"

text \<open>
  \<^verbatim>\<open>t.AddDate(years, months, days)\<close> for a \<open>t\<close> that carries location \<open>loc\<close>: the library
  reads the date and the clock of \<open>t\<close> in its location, adds, and calls \<^verbatim>\<open>time.Date\<close>.
\<close>

definition AddDate :: "Location \<Rightarrow> time \<Rightarrow> int \<Rightarrow> int \<Rightarrow> int \<Rightarrow> time" where
  "AddDate loc t years months days =
     (let c = civil loc t
      in date loc (Year c + years) (Month c + months) (Day c + days)
           (Hour_of c) (Minute_of c) (Second_of c) (Nanosecond_of c))"

text \<open>Days since 1970-01-01 of a date of the proleptic Gregorian calendar, and back.\<close>

definition days_from_civil :: "int \<Rightarrow> int \<Rightarrow> int \<Rightarrow> int" where
  "days_from_civil y m d =
     (let y' = (if m \<le> 2 then y - 1 else y);
          era = y' div 400;
          yoe = y' - era * 400;
          doy = (153 * (if m > 2 then m - 3 else m + 9) + 2) div 5 + d - 1;
          doe = yoe * 365 + yoe div 4 - yoe div 100 + doy
      in era * 146097 + doe - 719468)"

definition civil_from_days :: "int \<Rightarrow> int \<times> int \<times> int" where
  "civil_from_days z =
     (let z' = z + 719468;
          era = z' div 146097;
          doe = z' - era * 146097;
          yoe = (doe - doe div 1460 + doe div 36524 - doe div 146096) div 365;
          doy = doe - (365 * yoe + yoe div 4 - yoe div 100);
          mp = (5 * doy + 2) div 153;
          d = doy - (153 * mp + 2) div 5 + 1;
          m = (if mp < 10 then mp + 3 else mp - 9);
          y = yoe + era * 400
      in (if m \<le> 2 then y + 1 else y, m, d))"

text \<open>
  \<^verbatim>\<open>time.FixedZone(_, offset)\<close>, \<open>offset\<close> in seconds east of UTC. \<^verbatim>\<open>time.Date\<close>
  normalises the month into the year and lets every other field overflow into the
  next larger one, which is the linear sum below.
\<close>

definition FixedZone_civil :: "int \<Rightarrow> time \<Rightarrow> civil_time" where
  "FixedZone_civil offset t =
     (let ns = t + offset * Second;
          secs = ns div Second;
          days = secs div 86400;
          rem = secs mod 86400;
          (y, m, d) = civil_from_days days
      in \<lparr>Year = y, Month = m, Day = d,
          Hour_of = rem div 3600, Minute_of = (rem mod 3600) div 60,
          Second_of = rem mod 60, Nanosecond_of = ns mod Second\<rparr>)"

definition FixedZone_date ::
    "int \<Rightarrow> int \<Rightarrow> int \<Rightarrow> int \<Rightarrow> int \<Rightarrow> int \<Rightarrow> int \<Rightarrow> int \<Rightarrow> time" where
  "FixedZone_date offset y m d hh mm ss ns =
     (let m0 = m - 1;
          y' = y + m0 div 12;
          m' = m0 mod 12 + 1;
          days = days_from_civil y' m' 1 + (d - 1)
      in (days * 86400 + hh * 3600 + mm * 60 + ss - offset) * Second + ns)"

definition FixedZone :: "int \<Rightarrow> Location" where
  "FixedZone offset = \<lparr>civil = FixedZone_civil offset, date = FixedZone_date offset\<rparr>"

definition UTC :: Location where
  "UTC = FixedZone 0"

text \<open>
  The location \<^verbatim>\<open>Europe/Paris\<close> that both cutoff sources load, under the rule in force
  since 1996: one hour east of UTC, and two hours from 01:00 UTC of the last Sunday of
  March to 01:00 UTC of the last Sunday of October. Day 0 is a Thursday. \<^verbatim>\<open>time.Date\<close>
  reads the fields as if in UTC, looks up the offset at that instant and, if the
  instant so corrected falls in the other period, the offset there.
\<close>

definition last_sunday :: "int \<Rightarrow> int \<Rightarrow> int" where
  "last_sunday y m = 31 - (days_from_civil y m 31 + 4) mod 7"

definition Paris_offset :: "int \<Rightarrow> int" where
  "Paris_offset u =
     (let (y, m, d) = civil_from_days (u div 86400);
          summer_from = days_from_civil y 3 (last_sunday y 3) * 86400 + 3600;
          summer_until = days_from_civil y 10 (last_sunday y 10) * 86400 + 3600
      in if summer_from \<le> u \<and> u < summer_until then 7200 else 3600)"

definition Europe_Paris :: Location where
  "Europe_Paris =
     \<lparr>civil = (\<lambda>t. FixedZone_civil (Paris_offset (t div Second)) t),
      date = (\<lambda>y m d hh mm ss ns.
                (let t = FixedZone_date 0 y m d hh mm ss ns;
                     u = t div Second;
                     offset = Paris_offset u;
                     offset1 = (if Paris_offset (u - offset) = offset then offset
                                else Paris_offset (u - offset))
                 in t - offset1 * Second))\<rparr>"

text \<open>
  \<^verbatim>\<open>Time.Format\<close> for the two layouts of the program. The library writes a field
  zero-padded to its width, with a minus sign before a negative year.
\<close>

definition digit_char :: "nat \<Rightarrow> char" where
  "digit_char n = char_of (48 + n mod 10)"

fun pad_nat :: "nat \<Rightarrow> nat \<Rightarrow> string" where
  "pad_nat 0 n = (if n = 0 then [] else pad_nat 0 (n div 10) @ [digit_char n])"
| "pad_nat (Suc w) n = pad_nat w (n div 10) @ [digit_char n]"

definition appendInt :: "int \<Rightarrow> nat \<Rightarrow> string" where
  "appendInt x width =
     (if x < 0 then CHR ''-'' # pad_nat width (nat (- x)) else pad_nat width (nat x))"

definition Format_DateOnly :: "Location \<Rightarrow> time \<Rightarrow> string" where
  "Format_DateOnly loc t =
     (let c = civil loc t
      in appendInt (Year c) 4 @ ''-'' @ appendInt (Month c) 2 @ ''-'' @ appendInt (Day c) 2)"

text \<open>\<^verbatim>\<open>t.UTC().Format(time.RFC3339)\<close>: the zone of a UTC time is written \<open>Z\<close>.\<close>

definition Format_RFC3339_UTC :: "time \<Rightarrow> string" where
  "Format_RFC3339_UTC t =
     (let c = civil UTC t
      in appendInt (Year c) 4 @ ''-'' @ appendInt (Month c) 2 @ ''-'' @ appendInt (Day c) 2
         @ ''T'' @ appendInt (Hour_of c) 2 @ '':'' @ appendInt (Minute_of c) 2
         @ '':'' @ appendInt (Second_of c) 2 @ ''Z'')"

subsection \<open>\<^verbatim>\<open>source.go\<close>: responses\<close>

record 'd Response =
  Data :: "'d option"
  Timestamp :: string
  Error :: string
  ExpiresAt :: time

text \<open>
  \<^verbatim>\<open>NewResponse\<close> reads the clock twice, once for the timestamp and once for the
  expiration, in the order of the fields of the composite literal.
\<close>

definition NewResponse :: "'d \<Rightarrow> duration \<Rightarrow> 'u env \<Rightarrow> 'd Response \<times> 'u env" where
  "NewResponse d ttl e =
     (let (t1, e1) = time_Now e;
          (t2, e2) = time_Now e1
      in (\<lparr>Data = Some d, Timestamp = Format_RFC3339_UTC t1, Error = [],
           ExpiresAt = t2 + ttl\<rparr>, e2))"

definition NewResponseUntil :: "'d \<Rightarrow> time \<Rightarrow> 'u env \<Rightarrow> 'd Response \<times> 'u env" where
  "NewResponseUntil d expiresAt e =
     (let (t1, e1) = time_Now e
      in (\<lparr>Data = Some d, Timestamp = Format_RFC3339_UTC t1, Error = [],
           ExpiresAt = expiresAt\<rparr>, e1))"

definition ErrorResponse :: "string \<Rightarrow> duration \<Rightarrow> 'u env \<Rightarrow> 'd Response \<times> 'u env" where
  "ErrorResponse msg ttl e =
     (let (t1, e1) = time_Now e;
          (t2, e2) = time_Now e1
      in (\<lparr>Data = None, Timestamp = Format_RFC3339_UTC t1, Error = msg,
           ExpiresAt = t2 + ttl\<rparr>, e2))"

definition BackupResponse :: "'d Response \<Rightarrow> duration \<Rightarrow> 'u env \<Rightarrow> 'd Response \<times> 'u env" where
  "BackupResponse original degradedTTL e =
     (let (t1, e1) = time_Now e
      in (\<lparr>Data = Data original, Timestamp = Timestamp original, Error = [],
           ExpiresAt = t1 + degradedTTL\<rparr>, e1))"

definition DegradedResponse :: "'d Response \<Rightarrow> 'd Response \<Rightarrow> 'd Response" where
  "DegradedResponse backup err =
     \<lparr>Data = Data backup, Timestamp = Timestamp backup, Error = Error err,
      ExpiresAt = ExpiresAt err\<rparr>"

text \<open>
  The interface \<^verbatim>\<open>Source\<close>. \<^verbatim>\<open>Name\<close> and \<^verbatim>\<open>DegradedTTL\<close> return constants in every
  implementation; \<^verbatim>\<open>Fetch\<close> returns a response that is never \<^verbatim>\<open>nil\<close> and may read the
  clock and talk to its upstream.
\<close>

record ('d, 'u) Source =
  Name :: string
  Fetch :: "'u env \<Rightarrow> 'd Response \<times> 'u env"
  DegradedTTL :: duration

subsection \<open>\<^verbatim>\<open>cache.go\<close>: the response cache\<close>

record 'd cacheItem =
  data :: "'d Response option"
  backup :: "'d Response option"

record 'd Cache =
  items :: "string \<rightharpoonup> 'd cacheItem"

definition NewCache :: "'d Cache" where
  "NewCache = \<lparr>items = Map.empty\<rparr>"

text \<open>
  \<^verbatim>\<open>Get\<close>: the condition \<^verbatim>\<open>!ok || item.data == nil || time.Now().After(item.data.ExpiresAt)\<close>
  is evaluated left to right, so the clock is read only for an entry that has a
  current response.
\<close>

definition Cache_Get :: "'d Cache \<Rightarrow> string \<Rightarrow> 'u env \<Rightarrow> 'd Response option \<times> 'u env" where
  "Cache_Get c key e =
     (case items c key of
        None \<Rightarrow> (None, e)
      | Some item \<Rightarrow>
          (case data item of
             None \<Rightarrow> (None, e)
           | Some r \<Rightarrow>
               (let (now, e1) = time_Now e
                in if now > ExpiresAt r then (None, e1) else (Some r, e1))))"

definition Cache_GetBackup :: "'d Cache \<Rightarrow> string \<Rightarrow> 'u env \<Rightarrow> 'd Response option \<times> 'u env" where
  "Cache_GetBackup c key e =
     (case items c key of
        None \<Rightarrow> (None, e)
      | Some item \<Rightarrow>
          (case backup item of
             None \<Rightarrow> (None, e)
           | Some r \<Rightarrow>
               (let (now, e1) = time_Now e
                in if now > ExpiresAt r then (None, e1) else (Some r, e1))))"

text \<open>
  \<^verbatim>\<open>Set\<close>: \<^verbatim>\<open>item := c.items[key]\<close> is the zero item (both pointers \<^verbatim>\<open>nil\<close>) for a
  key that is not in the map.
\<close>

definition Cache_Set ::
    "'d Cache \<Rightarrow> string \<Rightarrow> 'd Response \<Rightarrow> duration \<Rightarrow> 'u env \<Rightarrow> 'd Cache \<times> 'u env" where
  "Cache_Set c key resp degradedTTL e =
     (let item = (case items c key of
                    None \<Rightarrow> \<lparr>data = None, backup = None\<rparr>
                  | Some it \<Rightarrow> it);
          item1 = item\<lparr>data := Some resp\<rparr>;
          (item2, e1) = (if Error resp = []
                         then (let (b, e') = BackupResponse resp degradedTTL e
                               in (item1\<lparr>backup := Some b\<rparr>, e'))
                         else (item1, e))
      in (c\<lparr>items := (items c)(key \<mapsto> item2)\<rparr>, e1))"

subsection \<open>\<^verbatim>\<open>main.go\<close>: fetch with caching and degraded mode\<close>

definition fetchCached ::
    "'d Cache \<Rightarrow> ('d, 'u) Source \<Rightarrow> 'u env \<Rightarrow> 'd Response \<times> 'd Cache \<times> 'u env" where
  "fetchCached cache src e =
     (case Cache_Get cache (Name src) e of
        (Some cached, e1) \<Rightarrow> (cached, cache, e1)
      | (None, e1) \<Rightarrow>
          (let (resp, e2) = Fetch src e1;
               (resp1, e3) =
                  (if Error resp \<noteq> []
                   then (case Cache_GetBackup cache (Name src) e2 of
                           (Some b, e') \<Rightarrow> (DegradedResponse b resp, e')
                         | (None, e') \<Rightarrow> (resp, e'))
                   else (resp, e2));
               (cache1, e4) = Cache_Set cache (Name src) resp1 (DegradedTTL src) e3
           in (resp1, cache1, e4)))"

subsection \<open>\<^verbatim>\<open>main.go\<close>: fetching all sources concurrently\<close>

text \<open>
  \<^verbatim>\<open>fetchAll\<close> starts one goroutine per source and waits for all of them. Each goroutine
  runs \<^verbatim>\<open>fetchCached\<close> and stores the response under the key of its source in the map
  \<^verbatim>\<open>results\<close>. The goroutines share the cache, the world and the map; each access to
  the cache and to the map is guarded by a mutex. The model interleaves the
  goroutines at these accesses: a goroutine is at one of six points,

  \<^item> \<open>Start\<close>: before \<^verbatim>\<open>cache.Get\<close>;
  \<^item> \<open>Missed\<close>: \<^verbatim>\<open>Get\<close> returned \<^verbatim>\<open>nil\<close>, before \<^verbatim>\<open>src.Fetch\<close>;
  \<^item> \<open>Fetched resp\<close>: \<^verbatim>\<open>Fetch\<close> returned \<open>resp\<close>, before the test of its error;
  \<^item> \<open>ToSet resp\<close>: before \<^verbatim>\<open>cache.Set\<close> of \<open>resp\<close>;
  \<^item> \<open>Got resp\<close>: \<^verbatim>\<open>fetchCached\<close> returned \<open>resp\<close>, before \<^verbatim>\<open>results[n] = resp\<close>;
  \<^item> \<open>Done\<close>: after \<^verbatim>\<open>wg.Done()\<close>,

  and \<open>advance\<close> takes it from one point to the next. A call of \<^verbatim>\<open>Fetch\<close> is one
  step: the sources talk to different upstreams. A schedule is the list of the
  goroutines' indices in the order of their steps.
\<close>

record 'd AllData =
  Weather :: "'d Response option"
  Transport :: "'d Response option"
  Temperature :: "'d Response option"
  Electricity :: "'d Response option"
  Tempo :: "'d Response option"
  All_Timestamp :: string

datatype 'd task = Start | Missed | Fetched "'d Response" | ToSet "'d Response"
  | Got "'d Response" | Done

record ('d, 'u) config =
  shared :: "'d Cache"
  world :: "'u env"
  results :: "string \<rightharpoonup> 'd Response"
  tasks :: "(string \<times> ('d, 'u) Source \<times> 'd task) list"

fun advance ::
    "string \<Rightarrow> ('d, 'u) Source \<Rightarrow> 'd task \<Rightarrow> ('d, 'u) config \<Rightarrow> 'd task \<times> ('d, 'u) config" where
  "advance n s Start cfg =
     (case Cache_Get (shared cfg) (Name s) (world cfg) of
        (Some cached, e1) \<Rightarrow> (Got cached, cfg\<lparr>world := e1\<rparr>)
      | (None, e1) \<Rightarrow> (Missed, cfg\<lparr>world := e1\<rparr>))"
| "advance n s Missed cfg =
     (let (resp, e1) = Fetch s (world cfg) in (Fetched resp, cfg\<lparr>world := e1\<rparr>))"
| "advance n s (Fetched resp) cfg =
     (if Error resp \<noteq> []
      then (case Cache_GetBackup (shared cfg) (Name s) (world cfg) of
              (Some b, e1) \<Rightarrow> (ToSet (DegradedResponse b resp), cfg\<lparr>world := e1\<rparr>)
            | (None, e1) \<Rightarrow> (ToSet resp, cfg\<lparr>world := e1\<rparr>))
      else (ToSet resp, cfg))"
| "advance n s (ToSet resp) cfg =
     (let (c1, e1) = Cache_Set (shared cfg) (Name s) resp (DegradedTTL s) (world cfg)
      in (Got resp, cfg\<lparr>shared := c1, world := e1\<rparr>))"
| "advance n s (Got resp) cfg = (Done, cfg\<lparr>results := (results cfg)(n \<mapsto> resp)\<rparr>)"
| "advance n s Done cfg = (Done, cfg)"

text \<open>One step of goroutine \<open>i\<close>; an index that names no goroutine changes nothing.\<close>

definition step :: "nat \<Rightarrow> ('d, 'u) config \<Rightarrow> ('d, 'u) config" where
  "step i cfg =
     (if i < length (tasks cfg)
      then (case tasks cfg ! i of
              (n, s, st) \<Rightarrow>
                (let (st1, cfg1) = advance n s st cfg
                 in cfg1\<lparr>tasks := (tasks cfg)[i := (n, s, st1)]\<rparr>))
      else cfg)"

fun run :: "nat list \<Rightarrow> ('d, 'u) config \<Rightarrow> ('d, 'u) config" where
  "run [] cfg = cfg"
| "run (i # sched) cfg = run sched (step i cfg)"

definition all_done :: "('d, 'u) config \<Rightarrow> bool" where
  "all_done cfg = list_all (\<lambda>(n, s, st). st = Done) (tasks cfg)"

text \<open>
  \<^verbatim>\<open>fetchAll\<close>. The map \<^verbatim>\<open>sources\<close> is the list of its entries, in the order in which
  the loop starts the goroutines. \<^verbatim>\<open>wg.Wait()\<close> returns when every goroutine is done:
  a schedule that ends before that is not a run of \<^verbatim>\<open>fetchAll\<close> to its return, and
  the result is \<open>None\<close>. The fields of \<^verbatim>\<open>AllData\<close> are read from the map, a missing
  key giving \<^verbatim>\<open>nil\<close>, and the timestamp is formatted from a reading of the clock taken
  then.
\<close>

definition start_config ::
    "'d Cache \<Rightarrow> (string \<times> ('d, 'u) Source) list \<Rightarrow> 'u env \<Rightarrow> ('d, 'u) config" where
  "start_config cache sources e =
     \<lparr>shared = cache, world = e, results = Map.empty,
      tasks = map (\<lambda>(n, s). (n, s, Start)) sources\<rparr>"

definition fetchAll ::
    "'d Cache \<Rightarrow> (string \<times> ('d, 'u) Source) list \<Rightarrow> nat list \<Rightarrow> 'u env
       \<Rightarrow> ('d AllData \<times> 'd Cache \<times> 'u env) option" where
  "fetchAll cache sources sched e =
     (let cfg = run sched (start_config cache sources e)
      in if all_done cfg
         then (let (t, e1) = time_Now (world cfg)
               in Some (\<lparr>Weather = results cfg ''weather'',
                         Transport = results cfg ''transport'',
                         Temperature = results cfg ''temperature'',
                         Electricity = results cfg ''electricity'',
                         Tempo = results cfg ''tempo'',
                         All_Timestamp = Format_RFC3339_UTC t\<rparr>,
                        shared cfg, e1))
         else None)"

text \<open>A goroutine taking \<open>k\<close> steps in a row.\<close>

fun advance_by ::
    "nat \<Rightarrow> string \<Rightarrow> ('d, 'u) Source \<Rightarrow> 'd task \<Rightarrow> ('d, 'u) config
       \<Rightarrow> 'd task \<times> ('d, 'u) config" where
  "advance_by 0 n s st cfg = (st, cfg)"
| "advance_by (Suc k) n s st cfg =
     (case advance n s st cfg of (st1, cfg1) \<Rightarrow> advance_by k n s st1 cfg1)"

text \<open>
  The steps a goroutine has left at most, and the schedule that runs \<open>k\<close> goroutines
  one after the other.
\<close>

fun steps_left :: "'d task \<Rightarrow> nat" where
  "steps_left Start = 5"
| "steps_left Missed = 4"
| "steps_left (Fetched resp) = 3"
| "steps_left (ToSet resp) = 2"
| "steps_left (Got resp) = 1"
| "steps_left Done = 0"

definition one_by_one :: "nat \<Rightarrow> nat list" where
  "one_by_one k = concat (map (replicate 5) [0..<k])"

definition task_state :: "('d, 'u) config \<Rightarrow> nat \<Rightarrow> 'd task" where
  "task_state cfg i = snd (snd (tasks cfg ! i))"

text \<open>The map has an entry for every goroutine that is done.\<close>

definition stored :: "('d, 'u) config \<Rightarrow> bool" where
  "stored cfg = (\<forall>(n, s, st) \<in> set (tasks cfg). st = Done \<longrightarrow> results cfg n \<noteq> None)"

text \<open>
  The response a goroutine gets from \<^verbatim>\<open>fetchCached\<close> when the other goroutines take
  steps in between: \<^verbatim>\<open>cache.Get\<close> reads the cache and the clock of a configuration
  \<open>A\<close>, \<^verbatim>\<open>src.Fetch\<close> runs in the world of a configuration \<open>B\<close>, and
  \<^verbatim>\<open>cache.GetBackup\<close> reads the cache and the clock of a configuration \<open>C\<close>.
\<close>

definition response_at ::
    "('d, 'u) Source \<Rightarrow> ('d, 'u) config \<Rightarrow> ('d, 'u) config \<Rightarrow> ('d, 'u) config \<Rightarrow> 'd Response" where
  "response_at s A B C =
     (case fst (Cache_Get (shared A) (Name s) (world A)) of
        Some cached \<Rightarrow> cached
      | None \<Rightarrow>
          (let resp = fst (Fetch s (world B))
           in if Error resp \<noteq> []
              then (case fst (Cache_GetBackup (shared C) (Name s) (world C)) of
                      Some b \<Rightarrow> DegradedResponse b resp
                    | None \<Rightarrow> resp)
              else resp))"

text \<open>
  The account of a goroutine in state \<open>st\<close>, given the configurations \<open>cfgs k\<close> that a
  run has passed through: what the goroutine holds was read at the moments
  \<open>k1 \<le> k2 \<le> k3\<close>, none later than \<open>L\<close>; once the goroutine is done, its response
  is the entry of its key in the map.
\<close>

definition account ::
    "(nat \<Rightarrow> ('d, 'u) config) \<Rightarrow> ('d, 'u) Source \<Rightarrow> 'd task \<Rightarrow> 'd Response option
       \<Rightarrow> nat \<Rightarrow> nat \<Rightarrow> nat \<Rightarrow> bool" where
  "account cfgs s st entry k1 k2 k3 =
     (case st of
        Start \<Rightarrow> True
      | Missed \<Rightarrow> fst (Cache_Get (shared (cfgs k1)) (Name s) (world (cfgs k1))) = None
      | Fetched resp \<Rightarrow>
          fst (Cache_Get (shared (cfgs k1)) (Name s) (world (cfgs k1))) = None
          \<and> resp = fst (Fetch s (world (cfgs k2)))
      | ToSet r \<Rightarrow>
          fst (Cache_Get (shared (cfgs k1)) (Name s) (world (cfgs k1))) = None
          \<and> r = response_at s (cfgs k1) (cfgs k2) (cfgs k3)
      | Got r \<Rightarrow> r = response_at s (cfgs k1) (cfgs k2) (cfgs k3)
      | Done \<Rightarrow> entry = Some (response_at s (cfgs k1) (cfgs k2) (cfgs k3)))"

definition accounted ::
    "(nat \<Rightarrow> ('d, 'u) config) \<Rightarrow> nat \<Rightarrow> ('d, 'u) Source \<Rightarrow> 'd task \<Rightarrow> 'd Response option
       \<Rightarrow> bool" where
  "accounted cfgs L s st entry =
     (\<exists>k1 k2 k3. k1 \<le> k2 \<and> k2 \<le> k3 \<and> k3 \<le> L \<and> account cfgs s st entry k1 k2 k3)"

subsection \<open>Observers of the cache and histories of \<^verbatim>\<open>Set\<close>\<close>

text \<open>
  The two halves of the entry of a key: \<open>current_of\<close> is \<^verbatim>\<open>items[key].data\<close> and
  \<open>backup_of\<close> is \<^verbatim>\<open>items[key].backup\<close>, both \<open>None\<close> for a key without entry.
\<close>

definition current_of :: "'d Cache \<Rightarrow> string \<Rightarrow> 'd Response option" where
  "current_of c key = (case items c key of None \<Rightarrow> None | Some item \<Rightarrow> data item)"

definition backup_of :: "'d Cache \<Rightarrow> string \<Rightarrow> 'd Response option" where
  "backup_of c key = (case items c key of None \<Rightarrow> None | Some item \<Rightarrow> backup item)"

text \<open>
  A history of calls of \<^verbatim>\<open>Set\<close> for one key: each call has its response, its degraded
  TTL and the environment it runs in (whatever happened since the call before).
\<close>

fun Set_all :: "'d Cache \<Rightarrow> string \<Rightarrow> ('d Response \<times> duration \<times> 'u env) list \<Rightarrow> 'd Cache" where
  "Set_all c key [] = c"
| "Set_all c key ((resp, ttl, e) # ops) = Set_all (fst (Cache_Set c key resp ttl e)) key ops"



subsection \<open>Example inputs\<close>

text \<open>
  The instants 2024-01-15T02:00:00Z (03:00 in Paris) and 2024-07-10T01:30:00Z (03:30
  in Paris), a clock that starts at a given instant and advances by a nanosecond with
  every reading, and the source \<open>alpha\<close> of the concrete scenarios: its upstream state
  counts the calls of \<^verbatim>\<open>Fetch\<close>.
\<close>

definition T0 :: time where
  "T0 = 1705284000 * Second"

definition T1 :: time where
  "T1 = 1720575000 * Second"

definition env_from :: "time \<Rightarrow> 'u \<Rightarrow> 'u env" where
  "env_from t u = \<lparr>clock = (\<lambda>n. t + int n), ticks = 0, upstream = u\<rparr>"

definition alpha_ok :: "(string, nat) Source" where
  "alpha_ok =
     \<lparr>Name = ''alpha'',
      Fetch = (\<lambda>e. NewResponse ''P1'' (2 * Minute) (e\<lparr>upstream := Suc (upstream e)\<rparr>)),
      DegradedTTL = 48 * Hour\<rparr>"

definition alpha_failing :: "(string, nat) Source" where
  "alpha_failing =
     \<lparr>Name = ''alpha'',
      Fetch = (\<lambda>e. ErrorResponse ''timeout'' (5 * Minute) (e\<lparr>upstream := Suc (upstream e)\<rparr>)),
      DegradedTTL = 48 * Hour\<rparr>"

definition P1_current :: "string Response" where
  "P1_current = \<lparr>Data = Some ''P1'', Timestamp = ''2024-01-15T02:00:00Z'', Error = [],
                  ExpiresAt = T0 + 2 * Minute\<rparr>"

definition P1_backup :: "string Response" where
  "P1_backup = \<lparr>Data = Some ''P1'', Timestamp = ''2024-01-15T02:00:00Z'', Error = [],
                 ExpiresAt = T0 + 48 * Hour\<rparr>"

definition alpha_cache :: "string Cache" where
  "alpha_cache = \<lparr>items = [''alpha'' \<mapsto> \<lparr>data = Some P1_current, backup = Some P1_backup\<rparr>]\<rparr>"

subsection \<open>The transport source\<close>

text \<open>
  \<^verbatim>\<open>TransportSource\<close> with the fields its live fetch reads: the API key, the configured
  stops, whether their references are resolved, and the source's own cache of
  departures, a map from the index of a stop to the departures last fetched for it.
  An index into the slice of stops outside its range is a panic of the Go runtime:
  \<open>index\<close> returns it as a value. The parameter \<^verbatim>\<open>id\<close> of the methods is written \<open>id'\<close>.
\<close>

record Departure =
  Time :: string
  Realtime :: bool

record Destination =
  Dest_Name :: string
  Departures :: "Departure list"

record StopData =
  Stop_ID :: int
  Stop_Name :: string
  Stop_Line :: string
  Stop_Color :: string
  Stop_ColorText :: string
  Destinations :: "Destination list"

record stopInfo =
  line :: string
  name :: string
  stopRef :: string
  color :: string
  colorText :: string

record departureCache =
  destinations :: "Destination list"
  fetchedAt :: time

record TransportSource =
  apiKey :: string
  stops :: "stopInfo list"
  ready :: bool
  cache :: "int \<rightharpoonup> departureCache"

definition transportTTL :: duration where
  "transportTTL = 2 * Minute"

definition transportLiveTTL :: duration where
  "transportLiveTTL = 20 * Second"

datatype panic = IndexOutOfRange int nat

definition index :: "'a list \<Rightarrow> int \<Rightarrow> panic + 'a" where
  "index xs i =
     (if 0 \<le> i \<and> i < int (length xs) then Inr (xs ! nat i)
      else Inl (IndexOutOfRange i (length xs)))"

text \<open>
  \<^verbatim>\<open>fetchDepartures\<close> takes the stop at the index and asks the CTS API for its next
  departures. The exchange itself (the request, the decoding of the answer and the
  grouping of the departures by destination) is the parameter \<open>api\<close>: from the stop and
  the environment to an error message or the destinations, and the environment after.
\<close>

type_synonym 'u cts_api = "stopInfo \<Rightarrow> 'u env \<Rightarrow> (string + Destination list) \<times> 'u env"

definition fetchDepartures ::
    "'u cts_api \<Rightarrow> TransportSource \<Rightarrow> int \<Rightarrow> 'u env
       \<Rightarrow> (panic + (string + Destination list)) \<times> 'u env" where
  "fetchDepartures api s id' e =
     (case index (stops s) id' of
        Inl p \<Rightarrow> (Inl p, e)
      | Inr stop \<Rightarrow> (let (r, e1) = api stop e in (Inr r, e1)))"

text \<open>
  \<^verbatim>\<open>getDepartures\<close>: the departures cached for the index when they are younger than
  \<open>maxAge\<close> (\<^verbatim>\<open>time.Since\<close> reads the clock, and only for an index that has an entry);
  otherwise the departures fetched, stored with the instant of a further clock reading.
\<close>

definition getDepartures ::
    "'u cts_api \<Rightarrow> TransportSource \<Rightarrow> int \<Rightarrow> duration \<Rightarrow> 'u env
       \<Rightarrow> (panic + (string + Destination list)) \<times> TransportSource \<times> 'u env" where
  "getDepartures api s id' maxAge e =
     (let (fresh, e1) =
            (case cache s id' of
               None \<Rightarrow> (None, e)
             | Some cached \<Rightarrow>
                 (let (now, e') = time_Now e
                  in if now - fetchedAt cached < maxAge
                     then (Some (destinations cached), e') else (None, e')))
      in case fresh of
           Some ds \<Rightarrow> (Inr (Inr ds), s, e1)
         | None \<Rightarrow>
             (case fetchDepartures api s id' e1 of
                (Inl p, e2) \<Rightarrow> (Inl p, s, e2)
              | (Inr (Inl err), e2) \<Rightarrow> (Inr (Inl err), s, e2)
              | (Inr (Inr ds), e2) \<Rightarrow>
                  (let (now, e3) = time_Now e2
                   in (Inr (Inr ds),
                       s\<lparr>cache := (cache s)(id' \<mapsto> \<lparr>destinations = ds, fetchedAt = now\<rparr>)\<rparr>,
                       e3))))"

text \<open>
  \<^verbatim>\<open>getStopData\<close>: \<open>None\<close> is the \<^verbatim>\<open>nil\<close> it returns when the departures could not
  be had; the log line of that branch reads \<^verbatim>\<open>s.stops[id]\<close>, as the other branch does.
  \<open>StopData_of\<close> is the composite literal it returns otherwise.
\<close>

definition StopData_of :: "int \<Rightarrow> stopInfo \<Rightarrow> Destination list \<Rightarrow> StopData" where
  "StopData_of id' stop ds =
     \<lparr>Stop_ID = id', Stop_Name = name stop, Stop_Line = line stop,
      Stop_Color = color stop, Stop_ColorText = colorText stop, Destinations = ds\<rparr>"

definition getStopData ::
    "'u cts_api \<Rightarrow> TransportSource \<Rightarrow> int \<Rightarrow> duration \<Rightarrow> 'u env
       \<Rightarrow> (panic + StopData option) \<times> TransportSource \<times> 'u env" where
  "getStopData api s id' maxAge e =
     (case getDepartures api s id' maxAge e of
        (Inl p, s1, e1) \<Rightarrow> (Inl p, s1, e1)
      | (Inr (Inl err), s1, e1) \<Rightarrow>
          (case index (stops s1) id' of
             Inl p \<Rightarrow> (Inl p, s1, e1)
           | Inr stop \<Rightarrow> (Inr None, s1, e1))
      | (Inr (Inr ds), s1, e1) \<Rightarrow>
          (case index (stops s1) id' of
             Inl p \<Rightarrow> (Inl p, s1, e1)
           | Inr stop \<Rightarrow>
               (Inr (Some (StopData_of id' stop ds)), s1, e1)))"

text \<open>
  \<^verbatim>\<open>FetchLive\<close>. The guard \<^verbatim>\<open>id < 0 || id >= len(s.stops) || !s.ready || s.stops[id].stopRef == ""\<close>
  is evaluated left to right: the slice is read only when the three tests before it
  are false.
\<close>

definition TransportSource_FetchLive ::
    "'u cts_api \<Rightarrow> TransportSource \<Rightarrow> int \<Rightarrow> 'u env
       \<Rightarrow> (panic + StopData Response) \<times> TransportSource \<times> 'u env" where
  "TransportSource_FetchLive api s id' e =
     (if apiKey s = []
      then (let (r, e1) = ErrorResponse ''transport not configured'' Hour e in (Inr r, s, e1))
      else if id' < 0 \<or> id' \<ge> int (length (stops s)) \<or> \<not> ready s
      then (let (r, e1) = ErrorResponse ''invalid stop'' Minute e in (Inr r, s, e1))
      else (case index (stops s) id' of
              Inl p \<Rightarrow> (Inl p, s, e)
            | Inr stop \<Rightarrow>
                if stopRef stop = []
                then (let (r, e1) = ErrorResponse ''invalid stop'' Minute e in (Inr r, s, e1))
                else (case getStopData api s id' transportLiveTTL e of
                        (Inl p, s1, e1) \<Rightarrow> (Inl p, s1, e1)
                      | (Inr None, s1, e1) \<Rightarrow>
                          (let (r, e2) = ErrorResponse ''fetch failed'' Minute e1
                           in (Inr r, s1, e2))
                      | (Inr (Some d), s1, e1) \<Rightarrow>
                          (let (r, e2) = NewResponse d transportLiveTTL e1
                           in (Inr r, s1, e2)))))"

text \<open>
  A configured source with one resolved stop and an empty cache of departures, an API
  that answers with one destination, and an API that fails.
\<close>

definition stop0 :: stopInfo where
  "stop0 = \<lparr>line = ''A'', name = ''Gare Centrale'', stopRef = ''233A'',
            color = ''#E10D19'', colorText = ''#FFFFFF''\<rparr>"

definition transport0 :: TransportSource where
  "transport0 = \<lparr>apiKey = ''key'', stops = [stop0], ready = True, cache = Map.empty\<rparr>"

definition dests0 :: "Destination list" where
  "dests0 = [\<lparr>Dest_Name = ''Illkirch'',
              Departures = [\<lparr>Time = ''2024-01-15T03:04:00+01:00'', Realtime = True\<rparr>]\<rparr>]"

definition api_ok :: "nat cts_api" where
  "api_ok stop e = (Inr dests0, e\<lparr>upstream := Suc (upstream e)\<rparr>)"

definition api_failing :: "nat cts_api" where
  "api_failing stop e = (Inl ''503'', e\<lparr>upstream := Suc (upstream e)\<rparr>)"

text \<open>
  The live fetch as the specification words it: the fetch of one sub-entity goes
  through the core's cache and \<^verbatim>\<open>fetchCached\<close>, under a key derived from the name of
  the source and the sub-entity's id. \<open>fetch_id\<close> is the fetch of the sub-entity.
\<close>

definition sub_identity :: "string \<Rightarrow> int \<Rightarrow> string" where
  "sub_identity nm id' = nm @ ''/'' @ appendInt id' 1"

definition fetchOne_spec ::
    "'d Cache \<Rightarrow> ('d, 'u) Source \<Rightarrow> int \<Rightarrow> ('u env \<Rightarrow> 'd Response \<times> 'u env) \<Rightarrow> 'u env
       \<Rightarrow> 'd Response \<times> 'd Cache \<times> 'u env" where
  "fetchOne_spec c src id' fetch_id e =
     fetchCached c (src\<lparr>Name := sub_identity (Name src) id', Fetch := fetch_id\<rparr>) e"

text \<open>
  A core cache that holds, under the key of stop 0, the live response of
  2024-01-15T02:00:00Z: expired as current after twenty seconds, valid as backup for an
  hour. The source's own cache of departures holds the same departures, fetched at
  the same instant.
\<close>

definition live_backup :: "StopData Response" where
  "live_backup = \<lparr>Data = Some (StopData_of 0 stop0 dests0),
                   Timestamp = ''2024-01-15T02:00:00Z'', Error = [], ExpiresAt = T0 + Hour\<rparr>"

definition live_core :: "StopData Cache" where
  "live_core =
     \<lparr>items = [sub_identity ''transport'' 0 \<mapsto>
        \<lparr>data = Some (live_backup\<lparr>ExpiresAt := T0 + transportLiveTTL\<rparr>),
         backup = Some live_backup\<rparr>]\<rparr>"

definition transport_source :: "(StopData, nat) Source" where
  "transport_source =
     \<lparr>Name = ''transport'',
      Fetch = (\<lambda>e. ErrorResponse ''no departure data'' (5 * Minute) e),
      DegradedTTL = Hour\<rparr>"

definition transport1 :: TransportSource where
  "transport1 = transport0\<lparr>cache := [0 \<mapsto> \<lparr>destinations = dests0, fetchedAt = T0\<rparr>]\<rparr>"

subsection \<open>\<^verbatim>\<open>source_electricity.go\<close> and the tempo source: freshness by publication cutoff\<close>

text \<open>
  Both sources fetch their data first (\<^verbatim>\<open>fetchData\<close>: authentication and the exchange
  with the provider, here the parameter \<open>fetchData\<close>, which returns the message of an
  error or the data) and then compute the expiration from the hour of one clock
  reading in the location of the source. The fields modelled are those \<^verbatim>\<open>Fetch\<close>
  reads; of a day of consumption \<^verbatim>\<open>Fetch\<close> reads the date only, and Go compares
  strings byte by byte, as the order on \<open>string\<close> does.
\<close>

record Consumption =
  Date :: string
  HC :: "int option"
  HP :: "int option"
  BCHC :: "int option"
  BCHP :: "int option"
  BUHC :: "int option"
  BUHP :: "int option"
  RHC :: "int option"
  RHP :: "int option"

record ElectricityData =
  Days :: "Consumption list"
  Months :: "Consumption list"

record ElectricitySource =
  username :: string
  password :: string
  loc :: Location

definition electricityRetryTTL :: duration where
  "electricityRetryTTL = 1 * Hour"

definition electricityRefreshHour :: int where
  "electricityRefreshHour = 4"

definition ElectricitySource_Fetch ::
    "('u env \<Rightarrow> (string + ElectricityData) \<times> 'u env) \<Rightarrow> ElectricitySource \<Rightarrow> 'u env
       \<Rightarrow> ElectricityData Response \<times> 'u env" where
  "ElectricitySource_Fetch fetchData s e =
     (if username s = [] \<or> password s = []
      then ErrorResponse ''electricity not configured'' Hour e
      else (case fetchData e of
              (Inl err, e1) \<Rightarrow> ErrorResponse err (10 * Minute) e1
            | (Inr d, e1) \<Rightarrow>
                (let (t, e2) = time_Now e1;
                     now = civil (loc s) t;
                     hour = Hour_of now
                 in if hour < electricityRefreshHour
                    then NewResponseUntil d
                           (date (loc s) (Year now) (Month now) (Day now)
                              electricityRefreshHour 0 0 0) e2
                    else (let yesterday = Format_DateOnly (loc s) (AddDate (loc s) t 0 0 (- 1));
                              hasYesterday = (Days d \<noteq> [] \<and> Date (last (Days d)) \<ge> yesterday)
                          in if hasYesterday
                             then NewResponseUntil d
                                    (AddDate (loc s)
                                       (date (loc s) (Year now) (Month now) (Day now)
                                          electricityRefreshHour 0 0 0) 0 0 1) e2
                             else NewResponse d electricityRetryTTL e2))))"

text \<open>
  The tempo source never looks into its data: the payload is any type \<open>'d\<close>. Its
  field \<^verbatim>\<open>loc\<close> is written \<open>tempo_loc\<close>.
\<close>

record TempoSource =
  authToken :: string
  tempo_loc :: Location

definition tempoRetryTTL :: duration where
  "tempoRetryTTL = 1 * Hour"

definition tempoProvisionalHour :: int where
  "tempoProvisionalHour = 8"

definition tempoDefinitiveHour :: int where
  "tempoDefinitiveHour = 11"

definition TempoSource_Fetch ::
    "('u env \<Rightarrow> (string + 'd) \<times> 'u env) \<Rightarrow> TempoSource \<Rightarrow> 'u env \<Rightarrow> 'd Response \<times> 'u env" where
  "TempoSource_Fetch fetchData s e =
     (if authToken s = []
      then ErrorResponse ''tempo not configured'' Hour e
      else (case fetchData e of
              (Inl err, e1) \<Rightarrow> ErrorResponse err (10 * Minute) e1
            | (Inr d, e1) \<Rightarrow>
                (let (t, e2) = time_Now e1;
                     now = civil (tempo_loc s) t;
                     hour = Hour_of now
                 in if hour < tempoProvisionalHour
                    then NewResponseUntil d
                           (date (tempo_loc s) (Year now) (Month now) (Day now)
                              tempoProvisionalHour 0 0 0) e2
                    else if hour \<ge> tempoDefinitiveHour
                    then NewResponseUntil d
                           (AddDate (tempo_loc s)
                              (date (tempo_loc s) (Year now) (Month now) (Day now)
                                 tempoProvisionalHour 0 0 0) 0 0 1) e2
                    else NewResponse d tempoRetryTTL e2)))"

text \<open>
  Example inputs: both sources configured, in Paris; consumption data whose last day
  is 2024-01-14, and whose last day is 2024-01-13; an upstream that delivers them.
\<close>

definition day_of :: "string \<Rightarrow> Consumption" where
  "day_of d = \<lparr>Date = d, HC = Some 3, HP = Some 5, BCHC = None, BCHP = None,
               BUHC = None, BUHP = None, RHC = None, RHP = None\<rparr>"

definition days_until_14 :: ElectricityData where
  "days_until_14 = \<lparr>Days = [day_of ''2024-01-13'', day_of ''2024-01-14''], Months = []\<rparr>"

definition days_until_13 :: ElectricityData where
  "days_until_13 = \<lparr>Days = [day_of ''2024-01-12'', day_of ''2024-01-13''], Months = []\<rparr>"

definition electricity0 :: ElectricitySource where
  "electricity0 = \<lparr>username = ''user'', password = ''secret'', loc = Europe_Paris\<rparr>"

definition tempo0 :: TempoSource where
  "tempo0 = \<lparr>authToken = ''token'', tempo_loc = Europe_Paris\<rparr>"

definition delivers :: "'a \<Rightarrow> nat env \<Rightarrow> (string + 'a) \<times> nat env" where
  "delivers d e = (Inr d, e\<lparr>upstream := Suc (upstream e)\<rparr>)"

subsection \<open>The temperature source, and the five sources of \<^verbatim>\<open>main\<close>\<close>

text \<open>
  \<^verbatim>\<open>TemperatureSource\<close>: its \<^verbatim>\<open>Fetch\<close> does not read a sensor yet and delivers the same
  payload always, for 24 hours. The fields of \<^verbatim>\<open>TemperatureData\<close> are \<^verbatim>\<open>Temperature\<close>,
  \<^verbatim>\<open>Humidity\<close> and \<^verbatim>\<open>Location\<close> (here with the prefix \<open>Sensor\<close>, two of the names being
  taken); the \<^verbatim>\<open>float64\<close> 21.5 is a real number.
\<close>

record TemperatureData =
  Sensor_Temperature :: real
  Sensor_Humidity :: int
  Sensor_Location :: string

definition TemperatureSource_Fetch :: "'u env \<Rightarrow> TemperatureData Response \<times> 'u env" where
  "TemperatureSource_Fetch e =
     NewResponse \<lparr>Sensor_Temperature = 21.5, Sensor_Humidity = 45,
                  Sensor_Location = ''Living Room''\<rparr> (24 * Hour) e"

definition TemperatureSource :: "(TemperatureData, 'u) Source" where
  "TemperatureSource =
     \<lparr>Name = ''temperature'', Fetch = TemperatureSource_Fetch, DegradedTTL = 4 * Hour\<rparr>"

text \<open>
  The other four sources as \<^verbatim>\<open>main\<close> creates them from the configuration that
  \<^verbatim>\<open>LoadConfig\<close> reads when no variable is set: every URL, key and credential is the
  empty string, and \<^verbatim>\<open>Fetch\<close> returns at its first test,
  \<^verbatim>\<open>ErrorResponse("... not configured", time.Hour)\<close>. Each has the name and the
  degraded TTL of its methods \<^verbatim>\<open>Name\<close> and \<^verbatim>\<open>DegradedTTL\<close>. An error response holds no
  payload, so these sources exist at every payload type.
\<close>

definition WeatherSource_unconfigured :: "('d, 'u) Source" where
  "WeatherSource_unconfigured =
     \<lparr>Name = ''weather'', Fetch = ErrorResponse ''weather not configured'' Hour,
      DegradedTTL = 24 * Hour\<rparr>"

definition TransportSource_unconfigured :: "('d, 'u) Source" where
  "TransportSource_unconfigured =
     \<lparr>Name = ''transport'', Fetch = ErrorResponse ''transport not configured'' Hour,
      DegradedTTL = Hour\<rparr>"

definition ElectricitySource_unconfigured :: "('d, 'u) Source" where
  "ElectricitySource_unconfigured =
     \<lparr>Name = ''electricity'', Fetch = ErrorResponse ''electricity not configured'' Hour,
      DegradedTTL = 48 * Hour\<rparr>"

definition TempoSource_unconfigured :: "('d, 'u) Source" where
  "TempoSource_unconfigured =
     \<lparr>Name = ''tempo'', Fetch = ErrorResponse ''tempo not configured'' Hour,
      DegradedTTL = 24 * Hour\<rparr>"

text \<open>
  The map \<^verbatim>\<open>sources\<close> of \<^verbatim>\<open>main\<close> with nothing configured, and two schedules of five
  goroutines: in turn one step each, and (\<open>one_by_one 5\<close>) one after the other.
\<close>

definition five_sources :: "(string \<times> (TemperatureData, nat) Source) list" where
  "five_sources =
     [(''weather'', WeatherSource_unconfigured),
      (''transport'', TransportSource_unconfigured),
      (''temperature'', TemperatureSource),
      (''electricity'', ElectricitySource_unconfigured),
      (''tempo'', TempoSource_unconfigured)]"

definition in_turn :: "nat list" where
  "in_turn = concat (replicate 5 [0, 1, 2, 3, 4])"

section \<open>Properties\<close>

lemma time_Now_upstream: "upstream (snd (time_Now e)) = upstream e"
  by (simp add: time_Now_def)

subsection \<open>The cache operations\<close>

lemma Cache_Get_result:
  "fst (Cache_Get c key e) =
     (case current_of c key of None \<Rightarrow> None
      | Some r \<Rightarrow> if clock e (ticks e) \<le> ExpiresAt r then Some r else None)"
  by (simp add: Cache_Get_def current_of_def time_Now_def split: option.splits)

lemma Cache_GetBackup_result:
  "fst (Cache_GetBackup c key e) =
     (case backup_of c key of None \<Rightarrow> None
      | Some r \<Rightarrow> if clock e (ticks e) \<le> ExpiresAt r then Some r else None)"
  by (simp add: Cache_GetBackup_def backup_of_def time_Now_def split: option.splits)

lemma Cache_Get_env:
  "snd (Cache_Get c key e) = (if current_of c key = None then e else e\<lparr>ticks := Suc (ticks e)\<rparr>)"
  by (simp add: Cache_Get_def current_of_def time_Now_def split: option.splits)

lemma Cache_GetBackup_env:
  "snd (Cache_GetBackup c key e) = (if backup_of c key = None then e else e\<lparr>ticks := Suc (ticks e)\<rparr>)"
  by (simp add: Cache_GetBackup_def backup_of_def time_Now_def split: option.splits)

lemma Cache_Set_current: "current_of (fst (Cache_Set c key resp ttl e)) key = Some resp"
  by (simp add: Cache_Set_def current_of_def BackupResponse_def time_Now_def Let_def
      split: option.splits)


lemma Cache_Set_other: "k \<noteq> key \<Longrightarrow> items (fst (Cache_Set c key resp ttl e)) k = items c k"
  by (simp add: Cache_Set_def BackupResponse_def time_Now_def Let_def split: option.splits)

lemma Cache_Set_env:
  "snd (Cache_Set c key resp ttl e) = (if Error resp = [] then e\<lparr>ticks := Suc (ticks e)\<rparr> else e)"
  by (simp add: Cache_Set_def BackupResponse_def time_Now_def Let_def split: option.splits)




lemma Set_all_current:
  "current_of (Set_all c key ops) key =
     (if ops = [] then current_of c key else Some (fst (last ops)))"
proof (induction ops arbitrary: c)
  case Nil
  show ?case by simp
next
  case (Cons op ops)
  obtain resp ttl e where op: "op = (resp, ttl, e)" by (cases op) auto
  show ?case
    using Cons.IH [of "fst (Cache_Set c key resp ttl e)"]
    by (simp add: op Cache_Set_current)
qed


subsection \<open>Fetch with cache\<close>

lemma fetchCached_hit:
  assumes "fst (Cache_Get c (Name src) e) = Some r"
  shows "fetchCached c src e = (r, c, e\<lparr>ticks := Suc (ticks e)\<rparr>)"
proof -
  from assms have "current_of c (Name src) \<noteq> None"
    by (auto simp: Cache_Get_result split: option.splits)
  then have "snd (Cache_Get c (Name src) e) = e\<lparr>ticks := Suc (ticks e)\<rparr>"
    by (simp add: Cache_Get_env)
  with assms have "Cache_Get c (Name src) e = (Some r, e\<lparr>ticks := Suc (ticks e)\<rparr>)"
    by (metis prod.collapse)
  then show ?thesis by (simp add: fetchCached_def)
qed

lemma fetchCached_miss:
  assumes "fst (Cache_Get c (Name src) e) = None"
      and "Fetch src (snd (Cache_Get c (Name src) e)) = (resp, e2)"
  shows "fst (fetchCached c src e) =
           (if Error resp \<noteq> []
            then (case fst (Cache_GetBackup c (Name src) e2) of
                    Some b \<Rightarrow> DegradedResponse b resp | None \<Rightarrow> resp)
            else resp)"
proof -
  obtain e1 where g: "Cache_Get c (Name src) e = (None, e1)"
    using assms(1) by (metis prod.collapse)
  with assms(2) have f: "Fetch src e1 = (resp, e2)" by simp
  show ?thesis
    using g f by (simp add: fetchCached_def split: prod.splits option.splits)
qed

lemma fetchCached_miss_cache:
  assumes "fst (Cache_Get c (Name src) e) = None"
      and "Fetch src (snd (Cache_Get c (Name src) e)) = (resp, e2)"
  shows "fst (snd (fetchCached c src e)) =
           fst (Cache_Set c (Name src) (fst (fetchCached c src e)) (DegradedTTL src)
                  (if Error resp \<noteq> [] then snd (Cache_GetBackup c (Name src) e2) else e2))"
proof -
  obtain e1 where g: "Cache_Get c (Name src) e = (None, e1)"
    using assms(1) by (metis prod.collapse)
  with assms(2) have f: "Fetch src e1 = (resp, e2)" by simp
  show ?thesis
    using g f by (simp add: fetchCached_def split: prod.splits option.splits)
qed

text \<open>
  Claim C1. When the cache has no fresh current response for the source (so that
  \<^verbatim>\<open>Fetch\<close> is called), \<^verbatim>\<open>Fetch\<close> returns a failure, and the cache holds for the name of
  the source a backup that has not expired at the reading of the clock taken by
  \<^verbatim>\<open>GetBackup\<close>, then \<^verbatim>\<open>fetchCached\<close> returns the degraded response: the payload and
  the timestamp of the backup, the error and the expiration of the failure.
\<close>

theorem fetchCached_degraded:
  assumes miss: "fst (Cache_Get c (Name src) e) = None"
      and fetch: "Fetch src (snd (Cache_Get c (Name src) e)) = (resp, e2)"
      and failed: "Error resp \<noteq> []"
      and stored: "backup_of c (Name src) = Some b"
      and valid: "clock e2 (ticks e2) \<le> ExpiresAt b"
  shows "fst (fetchCached c src e) =
           \<lparr>Data = Data b, Timestamp = Timestamp b, Error = Error resp,
            ExpiresAt = ExpiresAt resp\<rparr>"
proof -
  have "fst (Cache_GetBackup c (Name src) e2) = Some b"
    using stored valid by (simp add: Cache_GetBackup_result)
  then show ?thesis
    using fetchCached_miss [OF miss fetch] failed by (simp add: DegradedResponse_def)
qed

text \<open>
  The scenario of the specification: \<open>alpha\<close> succeeded with \<open>P1\<close> (backup window 48
  hours) and fails with \<open>timeout\<close> five minutes later. The caller gets \<open>P1\<close>, the
  timestamp of \<open>P1\<close>, the error, and the five minutes of the failure.
\<close>

theorem fetchCached_degraded_witness:
  "fst (fetchCached alpha_cache alpha_failing (env_from (T0 + 5 * Minute) 0)) =
     \<lparr>Data = Some ''P1'', Timestamp = ''2024-01-15T02:00:00Z'', Error = ''timeout'',
      ExpiresAt = T0 + 10 * Minute + 2\<rparr>
   \<and> ExpiresAt P1_backup = T0 + 48 * Hour"
proof -
  let ?e = "env_from (T0 + 5 * Minute) (0::nat)"
  let ?resp = "\<lparr>Data = None, Timestamp = Format_RFC3339_UTC (T0 + 5 * Minute + 1),
                 Error = ''timeout'', ExpiresAt = T0 + 10 * Minute + 2\<rparr> :: string Response"
  let ?e2 = "\<lparr>clock = (\<lambda>n. T0 + 5 * Minute + int n), ticks = 3, upstream = Suc 0\<rparr>"
  have miss: "fst (Cache_Get alpha_cache (Name alpha_failing) ?e) = None"
    by (simp add: Cache_Get_result current_of_def alpha_cache_def alpha_failing_def
        P1_current_def env_from_def Minute_def Second_def)
  have fetch: "Fetch alpha_failing (snd (Cache_Get alpha_cache (Name alpha_failing) ?e)) = (?resp, ?e2)"
    by (simp add: Cache_Get_def alpha_cache_def alpha_failing_def ErrorResponse_def
        time_Now_def env_from_def Minute_def Second_def)
  have stored: "backup_of alpha_cache (Name alpha_failing) = Some P1_backup"
    by (simp add: backup_of_def alpha_cache_def alpha_failing_def)
  have valid: "clock ?e2 (ticks ?e2) \<le> ExpiresAt P1_backup"
    by (simp add: P1_backup_def T0_def Hour_def Minute_def Second_def)
  show ?thesis
    using fetchCached_degraded [OF miss fetch _ stored valid]
    by (simp add: P1_backup_def)
qed

text \<open>
  Claim C6. When \<^verbatim>\<open>Fetch\<close> is called and fails with a response built by
  \<^verbatim>\<open>ErrorResponse\<close> (as every failure of the sources is), and the cache holds no
  backup for the name of the source or one whose expiration has passed at the reading
  of the clock taken by \<^verbatim>\<open>GetBackup\<close>, then \<^verbatim>\<open>fetchCached\<close> returns the failure
  as it is: it carries the error message, and its payload is absent (\<open>None\<close>, not a
  default value).
\<close>

theorem fetchCached_failure_without_backup:
  assumes miss: "fst (Cache_Get c (Name src) e) = None"
      and fetch: "Fetch src (snd (Cache_Get c (Name src) e)) = (resp, e2)"
      and built: "resp = fst (ErrorResponse msg ttl e')"
      and failed: "msg \<noteq> []"
      and nobackup: "backup_of c (Name src) = None
                     \<or> (\<exists>b. backup_of c (Name src) = Some b \<and> ExpiresAt b < clock e2 (ticks e2))"
  shows "fst (fetchCached c src e) = resp
         \<and> Error (fst (fetchCached c src e)) = msg
         \<and> Data (fst (fetchCached c src e)) = None"
proof -
  have none: "fst (Cache_GetBackup c (Name src) e2) = None"
    using nobackup by (auto simp: Cache_GetBackup_result)
  have err: "Error resp = msg" and payload: "Data resp = None"
    using built by (simp_all add: ErrorResponse_def time_Now_def)
  have "fst (fetchCached c src e) = resp"
    using fetchCached_miss [OF miss fetch] none by simp
  then show ?thesis using err payload by simp
qed

text \<open>The first fetch ever of \<open>alpha\<close> fails: the cache is empty.\<close>

theorem fetchCached_failure_without_backup_witness:
  "fst (fetchCached NewCache alpha_failing (env_from T0 0)) =
     \<lparr>Data = None, Timestamp = Format_RFC3339_UTC T0, Error = ''timeout'',
      ExpiresAt = T0 + 5 * Minute + 1\<rparr>"
proof -
  let ?e = "env_from T0 (0::nat)"
  let ?resp = "\<lparr>Data = None, Timestamp = Format_RFC3339_UTC T0,
                 Error = ''timeout'', ExpiresAt = T0 + 5 * Minute + 1\<rparr> :: string Response"
  let ?e1 = "\<lparr>clock = (\<lambda>n. T0 + int n), ticks = 0, upstream = Suc 0\<rparr>"
  let ?e2 = "\<lparr>clock = (\<lambda>n. T0 + int n), ticks = 2, upstream = Suc 0\<rparr>"
  have miss: "fst (Cache_Get NewCache (Name alpha_failing) ?e) = (None :: string Response option)"
    by (simp add: Cache_Get_result current_of_def NewCache_def)
  have fetch: "Fetch alpha_failing (snd (Cache_Get (NewCache :: string Cache) (Name alpha_failing) ?e)) = (?resp, ?e2)"
    by (simp add: Cache_Get_def NewCache_def alpha_failing_def ErrorResponse_def
        time_Now_def env_from_def)
  have built: "?resp = fst (ErrorResponse ''timeout'' (5 * Minute) ?e1)"
    by (simp add: ErrorResponse_def time_Now_def)
  have nobackup: "backup_of (NewCache :: string Cache) (Name alpha_failing) = None
     \<or> (\<exists>b. backup_of (NewCache :: string Cache) (Name alpha_failing) = Some b \<and> ExpiresAt b < clock ?e2 (ticks ?e2))"
    by (simp add: backup_of_def NewCache_def)
  show ?thesis
    using fetchCached_failure_without_backup [OF miss fetch built _ nobackup]
    by simp
qed

text \<open>What \<^verbatim>\<open>fetchCached\<close> returns is the current response of the cache it leaves.\<close>

lemma fetchCached_stores:
  assumes "fetchCached c src e = (r, c1, e1)"
  shows "current_of c1 (Name src) = Some r"
proof (cases "fst (Cache_Get c (Name src) e)")
  case (Some cached)
  from fetchCached_hit [OF Some] assms have "cached = r" "c1 = c" by simp_all
  with Some show ?thesis
    by (auto simp: Cache_Get_result split: option.splits if_splits)
next
  case None
  obtain resp e2 where f: "Fetch src (snd (Cache_Get c (Name src) e)) = (resp, e2)"
    by (cases "Fetch src (snd (Cache_Get c (Name src) e))") auto
  from fetchCached_miss_cache [OF None f] assms
  show ?thesis by (simp add: Cache_Set_current)
qed

text \<open>
  Claim C3. Let a first call of \<^verbatim>\<open>fetchCached\<close> for a source return \<open>r1\<close> and leave the
  cache \<open>c1\<close>. A second call, on a cache whose entry for the source is still the
  one the first call left and in any environment whose next clock reading is not
  after the expiration of \<open>r1\<close>, returns \<open>r1\<close>, leaves the cache as it is and reads the
  clock once: the upstream state is untouched and the result is the same whatever
  \<^verbatim>\<open>Fetch\<close> the source has, so \<^verbatim>\<open>Fetch\<close> is not called.
\<close>

theorem fetchCached_twice:
  assumes first: "fetchCached c src e = (r1, c1, e1)"
      and present: "current_of c2 (Name src) = current_of c1 (Name src)"
      and window: "clock e2 (ticks e2) \<le> ExpiresAt r1"
  shows "fetchCached c2 src e2 = (r1, c2, e2\<lparr>ticks := Suc (ticks e2)\<rparr>)
         \<and> upstream (snd (snd (fetchCached c2 src e2))) = upstream e2
         \<and> (\<forall>f. fetchCached c2 (src\<lparr>Fetch := f\<rparr>) e2 = fetchCached c2 src e2)"
proof -
  have cur: "current_of c2 (Name src) = Some r1"
    using fetchCached_stores [OF first] present by simp
  then have get: "fst (Cache_Get c2 (Name src) e2) = Some r1"
    using window by (simp add: Cache_Get_result)
  have one: "fetchCached c2 src e2 = (r1, c2, e2\<lparr>ticks := Suc (ticks e2)\<rparr>)"
    using fetchCached_hit [OF get] .
  have "fetchCached c2 (src\<lparr>Fetch := f\<rparr>) e2 = (r1, c2, e2\<lparr>ticks := Suc (ticks e2)\<rparr>)" for f
    using fetchCached_hit [of c2 "src\<lparr>Fetch := f\<rparr>" e2 r1] get by simp
  with one show ?thesis by simp
qed

text \<open>
  The scenario of the specification: \<open>alpha\<close> was never fetched and succeeds with \<open>P1\<close>
  for two minutes; a request thirty seconds later returns \<open>P1\<close> from the cache, and the
  count of calls of \<^verbatim>\<open>Fetch\<close> stays at one; a request three minutes later calls
  \<^verbatim>\<open>Fetch\<close> again.
\<close>

theorem fetchCached_twice_witness:
  "fst (fetchCached NewCache alpha_ok (env_from T0 0)) =
     \<lparr>Data = Some ''P1'', Timestamp = Format_RFC3339_UTC T0, Error = [],
      ExpiresAt = T0 + 2 * Minute + 1\<rparr>
   \<and> upstream (snd (snd (fetchCached NewCache alpha_ok (env_from T0 0)))) = 1
   \<and> fst (fetchCached (fst (snd (fetchCached NewCache alpha_ok (env_from T0 0)))) alpha_ok
           (env_from (T0 + 30 * Second) 1)) =
       \<lparr>Data = Some ''P1'', Timestamp = Format_RFC3339_UTC T0, Error = [],
        ExpiresAt = T0 + 2 * Minute + 1\<rparr>
   \<and> upstream (snd (snd (fetchCached (fst (snd (fetchCached NewCache alpha_ok (env_from T0 0))))
           alpha_ok (env_from (T0 + 30 * Second) 1)))) = 1
   \<and> upstream (snd (snd (fetchCached (fst (snd (fetchCached NewCache alpha_ok (env_from T0 0))))
           alpha_ok (env_from (T0 + 3 * Minute) 1)))) = 2"
proof -
  let ?r1 = "\<lparr>Data = Some ''P1'', Timestamp = Format_RFC3339_UTC T0, Error = [],
               ExpiresAt = T0 + 2 * Minute + 1\<rparr> :: string Response"
  let ?e2 = "env_from (T0 + 30 * Second) (1::nat)"
  obtain c1 e1 where first: "fetchCached NewCache alpha_ok (env_from T0 0) = (?r1, c1, e1)"
    and up: "upstream e1 = 1"
    by (simp add: fetchCached_def Cache_Get_def NewCache_def alpha_ok_def NewResponse_def
        Cache_Set_def BackupResponse_def time_Now_def env_from_def Let_def)
  have window: "clock ?e2 (ticks ?e2) \<le> ExpiresAt ?r1"
    by (simp add: env_from_def Minute_def Second_def)
  have stored: "current_of c1 (Name alpha_ok) = Some ?r1"
    using first by (rule fetchCached_stores)
  have third: "upstream (snd (snd (fetchCached c1 alpha_ok (env_from (T0 + 3 * Minute) 1)))) = 2"
  proof -
    from stored obtain item where "items c1 ''alpha'' = Some item" "data item = Some ?r1"
      by (auto simp: current_of_def alpha_ok_def split: option.splits)
    then show ?thesis
      by (simp add: fetchCached_def Cache_Get_def alpha_ok_def NewResponse_def
          Cache_Set_def BackupResponse_def time_Now_def env_from_def Minute_def Second_def
          Let_def)
  qed
  show ?thesis
    using fetchCached_twice [OF first refl window] first up third
    by (simp add: env_from_def)
qed

subsection \<open>Freshness of \<^verbatim>\<open>Get\<close> and \<^verbatim>\<open>GetBackup\<close>\<close>

text \<open>
  Claim C8, as the code has it. \<^verbatim>\<open>Get\<close> returns the current response of the key exactly
  when the key has one and the reading of the clock is not after its expiration
  (\<^verbatim>\<open>time.Now().After(ExpiresAt)\<close> is false, so a reading equal to the expiration still
  returns it), and nothing otherwise; \<^verbatim>\<open>GetBackup\<close> does the same with the backup.
  Neither takes a source or returns a cache, and both leave the upstream state and the
  clock's sequence as they are.
\<close>

theorem Cache_Get_GetBackup_fresh:
  "fst (Cache_Get c key e) =
     (case current_of c key of
        None \<Rightarrow> None
      | Some r \<Rightarrow> if clock e (ticks e) \<le> ExpiresAt r then Some r else None)
   \<and> fst (Cache_GetBackup c key e) =
     (case backup_of c key of
        None \<Rightarrow> None
      | Some r \<Rightarrow> if clock e (ticks e) \<le> ExpiresAt r then Some r else None)
   \<and> upstream (snd (Cache_Get c key e)) = upstream e
   \<and> clock (snd (Cache_Get c key e)) = clock e
   \<and> upstream (snd (Cache_GetBackup c key e)) = upstream e
   \<and> clock (snd (Cache_GetBackup c key e)) = clock e"
  by (simp add: Cache_Get_result Cache_GetBackup_result Cache_Get_env Cache_GetBackup_env)

text \<open>
  The cache holding \<open>P1\<close>: fresh after thirty seconds, expired after three minutes
  while the backup is valid, the backup expired after forty-nine hours, and nothing
  for a key without entry.
\<close>

theorem Cache_Get_GetBackup_fresh_witness:
  "fst (Cache_Get alpha_cache ''alpha'' (env_from (T0 + 30 * Second) (0::nat))) = Some P1_current
   \<and> fst (Cache_Get alpha_cache ''alpha'' (env_from (T0 + 3 * Minute) (0::nat))) = None
   \<and> fst (Cache_GetBackup alpha_cache ''alpha'' (env_from (T0 + 3 * Minute) (0::nat))) = Some P1_backup
   \<and> fst (Cache_GetBackup alpha_cache ''alpha'' (env_from (T0 + 49 * Hour) (0::nat))) = None
   \<and> fst (Cache_Get alpha_cache ''beta'' (env_from T0 (0::nat))) = None"
  using Cache_Get_GetBackup_fresh [of alpha_cache "''alpha''" "env_from (T0 + 30 * Second) (0::nat)"]
        Cache_Get_GetBackup_fresh [of alpha_cache "''alpha''" "env_from (T0 + 3 * Minute) (0::nat)"]
        Cache_Get_GetBackup_fresh [of alpha_cache "''alpha''" "env_from (T0 + 49 * Hour) (0::nat)"]
        Cache_Get_GetBackup_fresh [of alpha_cache "''beta''" "env_from T0 (0::nat)"]
  by (simp add: current_of_def backup_of_def alpha_cache_def P1_current_def P1_backup_def
      env_from_def Hour_def Minute_def Second_def)

text \<open>
  At a reading of the clock equal to the expiration, and so not strictly earlier,
  \<^verbatim>\<open>Get\<close> returns the response.
\<close>

theorem Cache_Get_at_expiry_counterexample:
  "current_of alpha_cache ''alpha'' = Some P1_current
   \<and> clock (env_from (T0 + 2 * Minute) (0::nat)) (ticks (env_from (T0 + 2 * Minute) (0::nat)))
       = ExpiresAt P1_current
   \<and> \<not> clock (env_from (T0 + 2 * Minute) (0::nat)) (ticks (env_from (T0 + 2 * Minute) (0::nat)))
         < ExpiresAt P1_current
   \<and> fst (Cache_Get alpha_cache ''alpha'' (env_from (T0 + 2 * Minute) (0::nat))) = Some P1_current"
  by (simp add: Cache_Get_result current_of_def alpha_cache_def P1_current_def env_from_def)

subsection \<open>The live fetch of the transport source\<close>

text \<open>The constructors of responses, with their clock readings written out.\<close>

lemma ErrorResponse_eq:
  "ErrorResponse msg ttl e =
     (\<lparr>Data = None, Timestamp = Format_RFC3339_UTC (clock e (ticks e)), Error = msg,
       ExpiresAt = clock e (Suc (ticks e)) + ttl\<rparr>,
      e\<lparr>ticks := Suc (Suc (ticks e))\<rparr>)"
  by (simp add: ErrorResponse_def time_Now_def)

lemma NewResponse_eq:
  "NewResponse d ttl e =
     (\<lparr>Data = Some d, Timestamp = Format_RFC3339_UTC (clock e (ticks e)), Error = [],
       ExpiresAt = clock e (Suc (ticks e)) + ttl\<rparr>,
      e\<lparr>ticks := Suc (Suc (ticks e))\<rparr>)"
  by (simp add: NewResponse_def time_Now_def)

lemma NewResponseUntil_eq:
  "NewResponseUntil d expiresAt e =
     (\<lparr>Data = Some d, Timestamp = Format_RFC3339_UTC (clock e (ticks e)), Error = [],
       ExpiresAt = expiresAt\<rparr>,
      e\<lparr>ticks := Suc (ticks e)\<rparr>)"
  by (simp add: NewResponseUntil_def time_Now_def)

lemma index_in_range: "0 \<le> i \<Longrightarrow> i < int (length xs) \<Longrightarrow> index xs i = Inr (xs ! nat i)"
  by (simp add: index_def)

lemma fetchDepartures_in_range:
  assumes "0 \<le> i" and "i < int (length (stops s))"
  shows "fetchDepartures api s i e =
           (Inr (fst (api (stops s ! nat i) e)), snd (api (stops s ! nat i) e))"
  using assms by (simp add: fetchDepartures_def index_in_range split: prod.splits)

lemma getDepartures_stops: "stops (fst (snd (getDepartures api s i maxAge e))) = stops s"
  by (simp add: getDepartures_def time_Now_def Let_def
      split: option.splits prod.splits sum.splits)

lemma getDepartures_in_range:
  assumes "0 \<le> i" and "i < int (length (stops s))"
  shows "\<exists>r. fst (getDepartures api s i maxAge e) = Inr r"
  using assms
  by (simp add: getDepartures_def fetchDepartures_in_range time_Now_def Let_def
      split: option.splits prod.splits sum.splits)

lemma getStopData_in_range:
  assumes "0 \<le> i" and "i < int (length (stops s))"
  shows "\<exists>r. fst (getStopData api s i maxAge e) = Inr r"
proof -
  obtain r s1 e1 where g: "getDepartures api s i maxAge e = (Inr r, s1, e1)"
    using getDepartures_in_range [OF assms, of api maxAge e]
    by (metis prod.collapse)
  have "stops s1 = stops s"
    using getDepartures_stops [of api s i maxAge e] g by simp
  then have "index (stops s1) i = Inr (stops s ! nat i)"
    using assms by (simp add: index_in_range)
  then show ?thesis
    using g by (simp add: getStopData_def split: sum.splits)
qed

text \<open>No index of the live fetch leaves the slice of stops, whatever the id.\<close>

lemma FetchLive_no_panic: "\<exists>r. fst (TransportSource_FetchLive api s i e) = Inr r"
proof (cases "apiKey s = [] \<or> i < 0 \<or> i \<ge> int (length (stops s)) \<or> \<not> ready s")
  case True
  then show ?thesis
    by (auto simp: TransportSource_FetchLive_def split: prod.splits)
next
  case False
  then have range: "0 \<le> i" "i < int (length (stops s))" by simp_all
  obtain r where "fst (getStopData api s i transportLiveTTL e) = Inr r"
    using getStopData_in_range [OF range] by blast
  then show ?thesis
    using False range
    by (auto simp: TransportSource_FetchLive_def index_in_range
        split: prod.splits sum.splits option.splits)
qed

lemma FetchLive_invalid_stop:
  assumes "apiKey s \<noteq> []"
      and "i < 0 \<or> i \<ge> int (length (stops s)) \<or> \<not> ready s
           \<or> (0 \<le> i \<and> i < int (length (stops s)) \<and> stopRef (stops s ! nat i) = [])"
  shows "TransportSource_FetchLive api s i e =
           (Inr \<lparr>Data = None, Timestamp = Format_RFC3339_UTC (clock e (ticks e)),
                 Error = ''invalid stop'', ExpiresAt = clock e (Suc (ticks e)) + Minute\<rparr>,
            s, e\<lparr>ticks := Suc (Suc (ticks e))\<rparr>)"
  using assms
  by (auto simp: TransportSource_FetchLive_def index_in_range ErrorResponse_eq)

text \<open>
  Claim C10, as the code has it. For every integer id the live fetch returns a
  response: no read of the slice of stops is out of range. When the API key is
  configured and the id is negative, or not below the number of stops, or the stops
  are not resolved yet, or the stop has no resolved reference, the response is the
  error \<open>invalid stop\<close>, expiring a minute after the clock reading, and the source is
  unchanged. Without an API key the response is \<open>transport not configured\<close> with an
  hour, whatever the id: that test comes first.
\<close>

theorem FetchLive_total:
  "(\<exists>r. fst (TransportSource_FetchLive api s i e) = Inr r)
   \<and> (apiKey s \<noteq> [] \<and>
        (i < 0 \<or> i \<ge> int (length (stops s)) \<or> \<not> ready s
         \<or> (0 \<le> i \<and> i < int (length (stops s)) \<and> stopRef (stops s ! nat i) = []))
       \<longrightarrow> TransportSource_FetchLive api s i e =
             (Inr \<lparr>Data = None, Timestamp = Format_RFC3339_UTC (clock e (ticks e)),
                   Error = ''invalid stop'', ExpiresAt = clock e (Suc (ticks e)) + Minute\<rparr>,
              s, e\<lparr>ticks := Suc (Suc (ticks e))\<rparr>))
   \<and> (apiKey s = []
       \<longrightarrow> TransportSource_FetchLive api s i e =
             (Inr \<lparr>Data = None, Timestamp = Format_RFC3339_UTC (clock e (ticks e)),
                   Error = ''transport not configured'',
                   ExpiresAt = clock e (Suc (ticks e)) + Hour\<rparr>,
              s, e\<lparr>ticks := Suc (Suc (ticks e))\<rparr>))"
proof -
  have "TransportSource_FetchLive api s i e =
          (Inr \<lparr>Data = None, Timestamp = Format_RFC3339_UTC (clock e (ticks e)),
                Error = ''transport not configured'',
                ExpiresAt = clock e (Suc (ticks e)) + Hour\<rparr>,
           s, e\<lparr>ticks := Suc (Suc (ticks e))\<rparr>)"
    if "apiKey s = []"
    using that by (simp add: TransportSource_FetchLive_def ErrorResponse_eq)
  then show ?thesis
    using FetchLive_no_panic [of api s i e] FetchLive_invalid_stop [of s i api e] by blast
qed

text \<open>
  One configured stop: the ids \<open>-1\<close> and \<open>1\<close>, unresolved stops and a stop without
  reference are invalid; without API key the id \<open>7\<close> is not looked at.
\<close>

theorem FetchLive_total_witness:
  "fst (TransportSource_FetchLive api_ok transport0 (- 1) (env_from T0 0)) =
     Inr \<lparr>Data = None, Timestamp = Format_RFC3339_UTC T0, Error = ''invalid stop'',
          ExpiresAt = T0 + 1 + Minute\<rparr>
   \<and> fst (TransportSource_FetchLive api_ok transport0 1 (env_from T0 0)) =
     Inr \<lparr>Data = None, Timestamp = Format_RFC3339_UTC T0, Error = ''invalid stop'',
          ExpiresAt = T0 + 1 + Minute\<rparr>
   \<and> fst (TransportSource_FetchLive api_ok (transport0\<lparr>ready := False\<rparr>) 0 (env_from T0 0)) =
     Inr \<lparr>Data = None, Timestamp = Format_RFC3339_UTC T0, Error = ''invalid stop'',
          ExpiresAt = T0 + 1 + Minute\<rparr>
   \<and> fst (TransportSource_FetchLive api_ok
            (transport0\<lparr>stops := [stop0\<lparr>stopRef := []\<rparr>]\<rparr>) 0 (env_from T0 0)) =
     Inr \<lparr>Data = None, Timestamp = Format_RFC3339_UTC T0, Error = ''invalid stop'',
          ExpiresAt = T0 + 1 + Minute\<rparr>
   \<and> fst (TransportSource_FetchLive api_ok (transport0\<lparr>apiKey := []\<rparr>) 7 (env_from T0 0)) =
     Inr \<lparr>Data = None, Timestamp = Format_RFC3339_UTC T0,
          Error = ''transport not configured'', ExpiresAt = T0 + 1 + Hour\<rparr>"
  using FetchLive_total [of api_ok transport0 "- 1" "env_from T0 0"]
        FetchLive_total [of api_ok transport0 1 "env_from T0 0"]
        FetchLive_total [of api_ok "transport0\<lparr>ready := False\<rparr>" 0 "env_from T0 0"]
        FetchLive_total [of api_ok "transport0\<lparr>stops := [stop0\<lparr>stopRef := []\<rparr>]\<rparr>" 0 "env_from T0 0"]
        FetchLive_total [of api_ok "transport0\<lparr>apiKey := []\<rparr>" 7 "env_from T0 0"]
  by (simp add: transport0_def stop0_def env_from_def)

text \<open>
  A negative id on a source without API key: the response is \<open>transport not configured\<close>
  with an hour, not \<open>invalid stop\<close> with a minute.
\<close>

theorem FetchLive_unconfigured_counterexample:
  "(- 1 :: int) < 0
   \<and> fst (TransportSource_FetchLive api_ok (transport0\<lparr>apiKey := []\<rparr>) (- 1) (env_from T0 0)) =
       Inr \<lparr>Data = None, Timestamp = Format_RFC3339_UTC T0,
            Error = ''transport not configured'', ExpiresAt = T0 + 1 + Hour\<rparr>
   \<and> fst (TransportSource_FetchLive api_ok (transport0\<lparr>apiKey := []\<rparr>) (- 1) (env_from T0 0)) \<noteq>
       Inr \<lparr>Data = None, Timestamp = Format_RFC3339_UTC T0, Error = ''invalid stop'',
            ExpiresAt = T0 + 1 + Minute\<rparr>"
  by (simp add: TransportSource_FetchLive_def transport0_def ErrorResponse_def time_Now_def
      env_from_def)

text \<open>The source's own cache of departures.\<close>

lemma getDepartures_fresh:
  assumes "cache s i = Some cached"
      and "clock e (ticks e) - fetchedAt cached < maxAge"
  shows "getDepartures api s i maxAge e =
           (Inr (Inr (destinations cached)), s, e\<lparr>ticks := Suc (ticks e)\<rparr>)"
  using assms by (simp add: getDepartures_def time_Now_def)

text \<open>
  The environment in which \<^verbatim>\<open>getDepartures\<close> goes upstream: the clock was read once if
  the index had an entry (too old), and not at all otherwise.
\<close>

lemma getDepartures_stale:
  assumes range: "0 \<le> i" "i < int (length (stops s))"
      and stale: "\<forall>cached. cache s i = Some cached \<longrightarrow> \<not> clock e (ticks e) - fetchedAt cached < maxAge"
      and e1: "e1 = (if cache s i = None then e else e\<lparr>ticks := Suc (ticks e)\<rparr>)"
      and api: "api (stops s ! nat i) e1 = (r, e2)"
  shows "getDepartures api s i maxAge e =
           (case r of
              Inl err \<Rightarrow> (Inr (Inl err), s, e2)
            | Inr ds \<Rightarrow>
                (Inr (Inr ds),
                 s\<lparr>cache := (cache s)(i \<mapsto> \<lparr>destinations = ds, fetchedAt = clock e2 (ticks e2)\<rparr>)\<rparr>,
                 e2\<lparr>ticks := Suc (ticks e2)\<rparr>))"
proof (cases "cache s i")
  case None
  then show ?thesis
    using range e1 api
    by (simp add: getDepartures_def fetchDepartures_in_range time_Now_def split: sum.splits)
next
  case (Some cached)
  then show ?thesis
    using range e1 api stale
    by (simp add: getDepartures_def fetchDepartures_in_range time_Now_def split: sum.splits)
qed

text \<open>
  Claim C9, as the code has it. The live fetch takes no core cache and does not go
  through \<^verbatim>\<open>fetchCached\<close>: it is served from the transport source's own cache of
  departures, keyed by the index of the stop. For a configured and resolved stop:
  departures cached for the index less than twenty seconds before the clock reading
  are returned in a new successful response (twenty seconds to live) without asking
  the API, and the source is unchanged; otherwise the API is asked, and its
  departures are stored under the index with the instant of the next clock reading
  and returned in a new successful response, or, when it fails, the response is the
  error \<open>fetch failed\<close> with no payload and a minute to live, and the source is
  unchanged: there is no backup and no degraded response.
\<close>

theorem FetchLive_private_cache:
  assumes configured: "apiKey s \<noteq> []"
      and range: "0 \<le> i" "i < int (length (stops s))"
      and resolved: "ready s" "stopRef (stops s ! nat i) \<noteq> []"
  shows "(\<forall>cached. cache s i = Some cached \<and> clock e (ticks e) - fetchedAt cached < transportLiveTTL
            \<longrightarrow> TransportSource_FetchLive api s i e =
                  (Inr \<lparr>Data = Some (StopData_of i (stops s ! nat i) (destinations cached)),
                        Timestamp = Format_RFC3339_UTC (clock e (Suc (ticks e))), Error = [],
                        ExpiresAt = clock e (Suc (Suc (ticks e))) + transportLiveTTL\<rparr>,
                   s, e\<lparr>ticks := Suc (Suc (Suc (ticks e)))\<rparr>))
         \<and> (\<forall>e1 r e2.
               (\<forall>cached. cache s i = Some cached
                   \<longrightarrow> \<not> clock e (ticks e) - fetchedAt cached < transportLiveTTL)
               \<and> e1 = (if cache s i = None then e else e\<lparr>ticks := Suc (ticks e)\<rparr>)
               \<and> api (stops s ! nat i) e1 = (r, e2)
            \<longrightarrow> TransportSource_FetchLive api s i e =
                  (case r of
                     Inl err \<Rightarrow>
                       (Inr \<lparr>Data = None, Timestamp = Format_RFC3339_UTC (clock e2 (ticks e2)),
                             Error = ''fetch failed'',
                             ExpiresAt = clock e2 (Suc (ticks e2)) + Minute\<rparr>,
                        s, e2\<lparr>ticks := Suc (Suc (ticks e2))\<rparr>)
                   | Inr ds \<Rightarrow>
                       (Inr \<lparr>Data = Some (StopData_of i (stops s ! nat i) ds),
                             Timestamp = Format_RFC3339_UTC (clock e2 (Suc (ticks e2))),
                             Error = [],
                             ExpiresAt = clock e2 (Suc (Suc (ticks e2))) + transportLiveTTL\<rparr>,
                        s\<lparr>cache := (cache s)(i \<mapsto> \<lparr>destinations = ds,
                                                        fetchedAt = clock e2 (ticks e2)\<rparr>)\<rparr>,
                        e2\<lparr>ticks := Suc (Suc (Suc (ticks e2)))\<rparr>)))"
proof -
  have idx: "index (stops s) i = Inr (stops s ! nat i)"
    using range by (rule index_in_range)
  have guard: "\<not> (i < 0 \<or> i \<ge> int (length (stops s)) \<or> \<not> ready s)"
    using range resolved by simp
  have fresh: "TransportSource_FetchLive api s i e =
                  (Inr \<lparr>Data = Some (StopData_of i (stops s ! nat i) (destinations cached)),
                        Timestamp = Format_RFC3339_UTC (clock e (Suc (ticks e))), Error = [],
                        ExpiresAt = clock e (Suc (Suc (ticks e))) + transportLiveTTL\<rparr>,
                   s, e\<lparr>ticks := Suc (Suc (Suc (ticks e)))\<rparr>)"
    if "cache s i = Some cached" "clock e (ticks e) - fetchedAt cached < transportLiveTTL"
    for cached
    using configured guard resolved idx getDepartures_fresh [OF that, of api]
    by (simp add: TransportSource_FetchLive_def getStopData_def NewResponse_eq)
  have stale: "TransportSource_FetchLive api s i e =
                  (case r of
                     Inl err \<Rightarrow>
                       (Inr \<lparr>Data = None, Timestamp = Format_RFC3339_UTC (clock e2 (ticks e2)),
                             Error = ''fetch failed'',
                             ExpiresAt = clock e2 (Suc (ticks e2)) + Minute\<rparr>,
                        s, e2\<lparr>ticks := Suc (Suc (ticks e2))\<rparr>)
                   | Inr ds \<Rightarrow>
                       (Inr \<lparr>Data = Some (StopData_of i (stops s ! nat i) ds),
                             Timestamp = Format_RFC3339_UTC (clock e2 (Suc (ticks e2))),
                             Error = [],
                             ExpiresAt = clock e2 (Suc (Suc (ticks e2))) + transportLiveTTL\<rparr>,
                        s\<lparr>cache := (cache s)(i \<mapsto> \<lparr>destinations = ds,
                                                        fetchedAt = clock e2 (ticks e2)\<rparr>)\<rparr>,
                        e2\<lparr>ticks := Suc (Suc (Suc (ticks e2)))\<rparr>))"
    if "\<forall>cached. cache s i = Some cached
           \<longrightarrow> \<not> clock e (ticks e) - fetchedAt cached < transportLiveTTL"
       "e1 = (if cache s i = None then e else e\<lparr>ticks := Suc (ticks e)\<rparr>)"
       "api (stops s ! nat i) e1 = (r, e2)"
    for e1 r e2
    using configured guard resolved idx
      getDepartures_stale [of i s e transportLiveTTL e1 api r e2, OF range that]
    by (cases r)
       (simp_all add: TransportSource_FetchLive_def getStopData_def NewResponse_eq
          ErrorResponse_eq)
  show ?thesis using fresh stale by blast
qed

text \<open>
  Departures cached ten seconds ago are served although the API would fail, and the
  API is not asked; five minutes later they are too old and the failure comes back
  without payload; on an empty cache the departures of the API are stored.
\<close>

theorem FetchLive_private_cache_witness:
  "fst (TransportSource_FetchLive api_failing transport1 0 (env_from (T0 + 10 * Second) 0)) =
     Inr \<lparr>Data = Some (StopData_of 0 stop0 dests0),
          Timestamp = Format_RFC3339_UTC (T0 + 10 * Second + 1), Error = [],
          ExpiresAt = T0 + 10 * Second + 2 + transportLiveTTL\<rparr>
   \<and> upstream (snd (snd (TransportSource_FetchLive api_failing transport1 0
                            (env_from (T0 + 10 * Second) 0)))) = 0
   \<and> fst (TransportSource_FetchLive api_failing transport1 0 (env_from (T0 + 5 * Minute) 0)) =
     Inr \<lparr>Data = None, Timestamp = Format_RFC3339_UTC (T0 + 5 * Minute + 1),
          Error = ''fetch failed'', ExpiresAt = T0 + 5 * Minute + 2 + Minute\<rparr>
   \<and> fst (TransportSource_FetchLive api_ok transport0 0 (env_from T0 0)) =
     Inr \<lparr>Data = Some (StopData_of 0 stop0 dests0),
          Timestamp = Format_RFC3339_UTC (T0 + 1), Error = [],
          ExpiresAt = T0 + 2 + transportLiveTTL\<rparr>
   \<and> cache (fst (snd (TransportSource_FetchLive api_ok transport0 0 (env_from T0 0)))) 0 =
     Some \<lparr>destinations = dests0, fetchedAt = T0\<rparr>"
proof -
  have valid0: "apiKey transport0 \<noteq> []" "(0::int) \<le> 0" "0 < int (length (stops transport0))"
      "ready transport0" "stopRef (stops transport0 ! nat 0) \<noteq> []"
    by (simp_all add: transport0_def stop0_def)
  have valid1: "apiKey transport1 \<noteq> []" "(0::int) \<le> 0" "0 < int (length (stops transport1))"
      "ready transport1" "stopRef (stops transport1 ! nat 0) \<noteq> []"
    by (simp_all add: transport1_def transport0_def stop0_def)
  show ?thesis
    using FetchLive_private_cache [OF valid1, of "env_from (T0 + 10 * Second) 0" api_failing]
          FetchLive_private_cache [OF valid1, of "env_from (T0 + 5 * Minute) 0" api_failing]
          FetchLive_private_cache [OF valid0, of "env_from T0 0" api_ok]
    by (simp add: transport1_def transport0_def api_failing_def api_ok_def env_from_def
        transportLiveTTL_def Minute_def Second_def)
qed

text \<open>
  Fetch-with-cache on the core cache, keyed by the sub-identity of stop 0, answers a
  failing fetch with the payload of the backup; the live fetch of the code answers
  the failing API with no payload, though the same departures are in its own cache.
\<close>

theorem FetchLive_not_fetchCached_counterexample:
  "fst (fetchOne_spec live_core transport_source 0
          (ErrorResponse ''fetch failed'' Minute) (env_from (T0 + 5 * Minute) 0)) =
     \<lparr>Data = Some (StopData_of 0 stop0 dests0), Timestamp = ''2024-01-15T02:00:00Z'',
      Error = ''fetch failed'', ExpiresAt = T0 + 5 * Minute + 2 + Minute\<rparr>
   \<and> fst (TransportSource_FetchLive api_failing transport1 0 (env_from (T0 + 5 * Minute) 0)) =
     Inr \<lparr>Data = None, Timestamp = Format_RFC3339_UTC (T0 + 5 * Minute + 1),
          Error = ''fetch failed'', ExpiresAt = T0 + 5 * Minute + 2 + Minute\<rparr>"
proof -
  let ?e = "env_from (T0 + 5 * Minute) (0::nat)"
  have spec: "fst (fetchOne_spec live_core transport_source 0
                (ErrorResponse ''fetch failed'' Minute) ?e) =
                \<lparr>Data = Some (StopData_of 0 stop0 dests0), Timestamp = ''2024-01-15T02:00:00Z'',
                 Error = ''fetch failed'', ExpiresAt = T0 + 5 * Minute + 2 + Minute\<rparr>"
    by (simp add: fetchOne_spec_def fetchCached_def Cache_Get_def Cache_GetBackup_def
        Cache_Set_def live_core_def transport_source_def ErrorResponse_eq DegradedResponse_def
        live_backup_def time_Now_def env_from_def transportLiveTTL_def Hour_def Minute_def
        Second_def Let_def)
  have code: "fst (TransportSource_FetchLive api_failing transport1 0 ?e) =
     Inr \<lparr>Data = None, Timestamp = Format_RFC3339_UTC (T0 + 5 * Minute + 1),
          Error = ''fetch failed'', ExpiresAt = T0 + 5 * Minute + 2 + Minute\<rparr>"
    by (simp add: TransportSource_FetchLive_def getStopData_def getDepartures_def
        fetchDepartures_def index_def ErrorResponse_eq time_Now_def transport1_def transport0_def
        stop0_def api_failing_def env_from_def transportLiveTTL_def Minute_def Second_def)
  show ?thesis
    using spec code by simp
qed

subsection \<open>Expiration at the publication cutoff\<close>

lemma ElectricitySource_Fetch_success:
  assumes "username s \<noteq> []" and "password s \<noteq> []"
      and "fetchData e = (Inr d, e1)"
  shows "ElectricitySource_Fetch fetchData s e =
           (let t = clock e1 (ticks e1);
                e2 = e1\<lparr>ticks := Suc (ticks e1)\<rparr>;
                now = civil (loc s) t;
                cutoff = date (loc s) (Year now) (Month now) (Day now) 4 0 0 0
            in if Hour_of now < 4 then NewResponseUntil d cutoff e2
               else if Days d \<noteq> []
                       \<and> Format_DateOnly (loc s) (AddDate (loc s) t 0 0 (- 1)) \<le> Date (last (Days d))
               then NewResponseUntil d (AddDate (loc s) cutoff 0 0 1) e2
               else NewResponse d (1 * Hour) e2)"
  using assms
  by (simp add: ElectricitySource_Fetch_def time_Now_def Let_def electricityRefreshHour_def
      electricityRetryTTL_def)

lemma TempoSource_Fetch_success:
  assumes "authToken s \<noteq> []"
      and "fetchData e = (Inr d, e1)"
  shows "TempoSource_Fetch fetchData s e =
           (let t = clock e1 (ticks e1);
                e2 = e1\<lparr>ticks := Suc (ticks e1)\<rparr>;
                now = civil (tempo_loc s) t;
                cutoff = date (tempo_loc s) (Year now) (Month now) (Day now) 8 0 0 0
            in if Hour_of now < 8 then NewResponseUntil d cutoff e2
               else if Hour_of now \<ge> 11
               then NewResponseUntil d (AddDate (tempo_loc s) cutoff 0 0 1) e2
               else NewResponse d (1 * Hour) e2)"
  using assms
  by (simp add: TempoSource_Fetch_def time_Now_def Let_def tempoProvisionalHour_def
      tempoDefinitiveHour_def tempoRetryTTL_def)

text \<open>
  The calendar at the example instants: 2024-01-15T02:00:00Z is 03:00 in Paris, with
  04:00 and 08:00 of that day, 04:00 and 08:00 of the next, and the day before;
  2024-07-10T01:30:00Z is 03:30 in Paris. The facts are computed in steps: first
  the days, then the offset of Paris on a day of 2024, then the location.
\<close>

lemma Format_T0: "Format_RFC3339_UTC T0 = ''2024-01-15T02:00:00Z''"
  by code_simp

lemma days_2024:
  "civil_from_days 19736 = (2024, 1, 14)"
  "civil_from_days 19737 = (2024, 1, 15)"
  "civil_from_days 19738 = (2024, 1, 16)"
  "civil_from_days 19914 = (2024, 7, 10)"
  by code_simp+

lemma sundays_2024:
  "days_from_civil 2024 3 (last_sunday 2024 3) = 19813"
  "days_from_civil 2024 10 (last_sunday 2024 10) = 20023"
  by code_simp+

lemma Paris_offset_2024:
  assumes "civil_from_days (u div 86400) = (2024, m, d)"
  shows "Paris_offset u = (if 1711846800 \<le> u \<and> u < 1729990800 then 7200 else 3600)"
  by (simp add: Paris_offset_def assms sundays_2024)

lemma Paris_offset_January:
  assumes "u div 86400 = 19736 \<or> u div 86400 = 19737 \<or> u div 86400 = 19738"
  shows "Paris_offset u = 3600"
proof -
  from assms obtain d where "civil_from_days (u div 86400) = (2024, 1, d)" and "u div 86400 < 19739"
    by (auto simp: days_2024)
  then show ?thesis
    using Paris_offset_2024 [of u 1 d] by auto
qed

lemma Paris_offset_July:
  assumes "u div 86400 = 19914"
  shows "Paris_offset u = 7200"
proof -
  have "civil_from_days (u div 86400) = (2024, 7, 10)"
    by (simp add: assms days_2024)
  moreover have "1711846800 \<le> u" "u < 1729990800"
    using assms by auto
  ultimately show ?thesis
    using Paris_offset_2024 [of u 7 10] by simp
qed

lemma FixedZone_civil_at:
  "FixedZone_civil 3600 T0 =
     \<lparr>Year = 2024, Month = 1, Day = 15, Hour_of = 3, Minute_of = 0, Second_of = 0,
      Nanosecond_of = 0\<rparr>"
  "FixedZone_civil 3600 (T0 + Hour) =
     \<lparr>Year = 2024, Month = 1, Day = 15, Hour_of = 4, Minute_of = 0, Second_of = 0,
      Nanosecond_of = 0\<rparr>"
  "FixedZone_civil 3600 (T0 + 5 * Hour) =
     \<lparr>Year = 2024, Month = 1, Day = 15, Hour_of = 8, Minute_of = 0, Second_of = 0,
      Nanosecond_of = 0\<rparr>"
  "FixedZone_civil 3600 (T0 + 9 * Hour) =
     \<lparr>Year = 2024, Month = 1, Day = 15, Hour_of = 12, Minute_of = 0, Second_of = 0,
      Nanosecond_of = 0\<rparr>"
  "FixedZone_civil 3600 (T0 - 24 * Hour) =
     \<lparr>Year = 2024, Month = 1, Day = 14, Hour_of = 3, Minute_of = 0, Second_of = 0,
      Nanosecond_of = 0\<rparr>"
  "FixedZone_civil 3600 (T0 - 15 * Hour) =
     \<lparr>Year = 2024, Month = 1, Day = 14, Hour_of = 12, Minute_of = 0, Second_of = 0,
      Nanosecond_of = 0\<rparr>"
  "FixedZone_civil 7200 T1 =
     \<lparr>Year = 2024, Month = 7, Day = 10, Hour_of = 3, Minute_of = 30, Second_of = 0,
      Nanosecond_of = 0\<rparr>"
  by code_simp+

lemma FixedZone_date_at:
  "FixedZone_date 0 2024 1 15 4 0 0 0 = T0 + 2 * Hour"
  "FixedZone_date 0 2024 1 15 8 0 0 0 = T0 + 6 * Hour"
  "FixedZone_date 0 2024 1 16 4 0 0 0 = T0 + 26 * Hour"
  "FixedZone_date 0 2024 1 16 8 0 0 0 = T0 + 30 * Hour"
  "FixedZone_date 0 2024 1 14 3 0 0 0 = T0 - 23 * Hour"
  "FixedZone_date 0 2024 1 14 12 0 0 0 = T0 - 14 * Hour"
  "FixedZone_date 0 2024 7 10 4 0 0 0 = T1 + 150 * Minute"
  by code_simp+

lemma civil_Paris: "civil Europe_Paris t = FixedZone_civil (Paris_offset (t div Second)) t"
  by (simp add: Europe_Paris_def)

lemma date_Paris:
  assumes "FixedZone_date 0 y m d hh mm ss ns = t"
      and "Paris_offset (t div Second) = offset"
      and "Paris_offset (t div Second - offset) = offset"
  shows "date Europe_Paris y m d hh mm ss ns = t - offset * Second"
  by (simp add: Europe_Paris_def assms)

lemma Paris_offsets:
  "Paris_offset (T0 div Second) = 3600"
  "Paris_offset ((T0 + Hour) div Second) = 3600"
  "Paris_offset ((T0 + 2 * Hour) div Second) = 3600"
  "Paris_offset ((T0 + 5 * Hour) div Second) = 3600"
  "Paris_offset ((T0 + 6 * Hour) div Second) = 3600"
  "Paris_offset ((T0 + 9 * Hour) div Second) = 3600"
  "Paris_offset ((T0 + 25 * Hour) div Second) = 3600"
  "Paris_offset ((T0 + 26 * Hour) div Second) = 3600"
  "Paris_offset ((T0 + 29 * Hour) div Second) = 3600"
  "Paris_offset ((T0 + 30 * Hour) div Second) = 3600"
  "Paris_offset ((T0 - 14 * Hour) div Second) = 3600"
  "Paris_offset ((T0 - 15 * Hour) div Second) = 3600"
  "Paris_offset ((T0 - 23 * Hour) div Second) = 3600"
  "Paris_offset ((T0 - 24 * Hour) div Second) = 3600"
  by (rule Paris_offset_January, simp add: T0_def Hour_def Minute_def Second_def)+

lemma Paris_offsets_July:
  "Paris_offset (T1 div Second) = 7200"
  "Paris_offset ((T1 + 30 * Minute) div Second) = 7200"
  "Paris_offset ((T1 + 150 * Minute) div Second) = 7200"
  by (rule Paris_offset_July, simp add: T1_def Minute_def Second_def)+

lemma civil_T0:
  "civil Europe_Paris T0 =
     \<lparr>Year = 2024, Month = 1, Day = 15, Hour_of = 3, Minute_of = 0, Second_of = 0,
      Nanosecond_of = 0\<rparr>"
  by (simp add: civil_Paris Paris_offsets FixedZone_civil_at)

lemma civil_T1:
  "civil Europe_Paris T1 =
     \<lparr>Year = 2024, Month = 7, Day = 10, Hour_of = 3, Minute_of = 30, Second_of = 0,
      Nanosecond_of = 0\<rparr>"
  by (simp add: civil_Paris Paris_offsets_July FixedZone_civil_at)

lemma civil_T0_9h:
  "civil Europe_Paris (T0 + 9 * Hour) =
     \<lparr>Year = 2024, Month = 1, Day = 15, Hour_of = 12, Minute_of = 0, Second_of = 0,
      Nanosecond_of = 0\<rparr>"
  by (simp add: civil_Paris Paris_offsets FixedZone_civil_at)

lemma civil_cutoffs:
  "civil Europe_Paris (T0 + Hour) =
     \<lparr>Year = 2024, Month = 1, Day = 15, Hour_of = 4, Minute_of = 0, Second_of = 0,
      Nanosecond_of = 0\<rparr>"
  "civil Europe_Paris (T0 + 5 * Hour) =
     \<lparr>Year = 2024, Month = 1, Day = 15, Hour_of = 8, Minute_of = 0, Second_of = 0,
      Nanosecond_of = 0\<rparr>"
  by (simp_all add: civil_Paris Paris_offsets FixedZone_civil_at)

lemma civil_yesterday:
  "civil Europe_Paris (T0 - 24 * Hour) =
     \<lparr>Year = 2024, Month = 1, Day = 14, Hour_of = 3, Minute_of = 0, Second_of = 0,
      Nanosecond_of = 0\<rparr>"
  "civil Europe_Paris (T0 - 15 * Hour) =
     \<lparr>Year = 2024, Month = 1, Day = 14, Hour_of = 12, Minute_of = 0, Second_of = 0,
      Nanosecond_of = 0\<rparr>"
  by (simp_all add: civil_Paris Paris_offsets FixedZone_civil_at)

lemma date_Paris_winter:
  assumes "FixedZone_date 0 y m d hh mm ss ns = t'"
      and "t' = t + Hour"
      and "Paris_offset (t' div Second) = 3600"
      and "Paris_offset (t div Second) = 3600"
  shows "date Europe_Paris y m d hh mm ss ns = t"
proof -
  have "t' div Second - 3600 = t div Second"
    using assms(2) by (simp add: Hour_def Minute_def Second_def)
  then show ?thesis
    using date_Paris [OF assms(1), of 3600] assms(2,3,4) by (simp add: Hour_def Minute_def)
qed

lemma date_Paris_summer:
  assumes "FixedZone_date 0 y m d hh mm ss ns = t'"
      and "t' = t + 2 * Hour"
      and "Paris_offset (t' div Second) = 7200"
      and "Paris_offset (t div Second) = 7200"
  shows "date Europe_Paris y m d hh mm ss ns = t"
proof -
  have "t' div Second - 7200 = t div Second"
    using assms(2) by (simp add: Hour_def Minute_def Second_def)
  then show ?thesis
    using date_Paris [OF assms(1), of 7200] assms(2,3,4) by (simp add: Hour_def Minute_def)
qed

lemma date_cutoffs:
  "date Europe_Paris 2024 1 15 4 0 0 0 = T0 + Hour"
  "date Europe_Paris 2024 1 15 8 0 0 0 = T0 + 5 * Hour"
  "date Europe_Paris 2024 1 16 4 0 0 0 = T0 + 25 * Hour"
  "date Europe_Paris 2024 1 16 8 0 0 0 = T0 + 29 * Hour"
  by (rule date_Paris_winter [OF FixedZone_date_at(1)], simp_all add: Paris_offsets)
     (rule date_Paris_winter [OF FixedZone_date_at(2)], simp_all add: Paris_offsets,
      rule date_Paris_winter [OF FixedZone_date_at(3)], simp_all add: Paris_offsets,
      rule date_Paris_winter [OF FixedZone_date_at(4)], simp_all add: Paris_offsets)

lemma date_yesterday:
  "date Europe_Paris 2024 1 14 3 0 0 0 = T0 - 24 * Hour"
  "date Europe_Paris 2024 1 14 12 0 0 0 = T0 - 15 * Hour"
  by (rule date_Paris_winter [OF FixedZone_date_at(5)], simp_all add: Paris_offsets)
     (rule date_Paris_winter [OF FixedZone_date_at(6)], simp_all add: Paris_offsets)

lemma date_T1: "date Europe_Paris 2024 7 10 4 0 0 0 = T1 + 30 * Minute"
  by (rule date_Paris_summer [OF FixedZone_date_at(7)])
     (simp_all add: Paris_offsets_July Hour_def)

lemma AddDate_cutoffs:
  "AddDate Europe_Paris (T0 + Hour) 0 0 1 = T0 + 25 * Hour"
  "AddDate Europe_Paris (T0 + 5 * Hour) 0 0 1 = T0 + 29 * Hour"
  by (simp_all add: AddDate_def civil_cutoffs date_cutoffs)

lemma digits_2024_01_14: "appendInt 2024 4 = ''2024''" "appendInt 1 2 = ''01''" "appendInt 14 2 = ''14''"
  by code_simp+

lemma yesterday_T0:
  "Format_DateOnly Europe_Paris (AddDate Europe_Paris T0 0 0 (- 1)) = ''2024-01-14''"
  "Format_DateOnly Europe_Paris (AddDate Europe_Paris (T0 + 9 * Hour) 0 0 (- 1)) =
     ''2024-01-14''"
  by (simp_all add: AddDate_def civil_T0 civil_T0_9h date_yesterday Format_DateOnly_def
      civil_yesterday digits_2024_01_14)

lemma last_days:
  "Days days_until_14 \<noteq> []" "Date (last (Days days_until_14)) = ''2024-01-14''"
  "Days days_until_13 \<noteq> []" "Date (last (Days days_until_13)) = ''2024-01-13''"
  by (simp_all add: days_until_14_def days_until_13_def day_of_def)

lemma compare_days:
  "(''2024-01-14'' :: string) \<le> ''2024-01-14''" "\<not> (''2024-01-14'' :: string) \<le> ''2024-01-13''"
  by code_simp+

text \<open>
  Claim C4. When the electricity source is configured, its data are fetched, and the
  hour of the clock reading in the location of the source is before 4, the response
  is a success that expires at 04:00 of the day of the reading, in that location:
  \<^verbatim>\<open>time.Date\<close> of the reading's year, month and day, hour 4, in the location. The same
  holds for the tempo source with hour 8. No flat TTL enters either expiration.
\<close>

theorem Fetch_before_cutoff:
  "(username s \<noteq> [] \<and> password s \<noteq> [] \<and> fetchData e = (Inr d, e1)
      \<and> Hour_of (civil (loc s) (clock e1 (ticks e1))) < 4
    \<longrightarrow> fst (ElectricitySource_Fetch fetchData s e) =
          \<lparr>Data = Some d, Timestamp = Format_RFC3339_UTC (clock e1 (Suc (ticks e1))), Error = [],
           ExpiresAt = date (loc s) (Year (civil (loc s) (clock e1 (ticks e1))))
                         (Month (civil (loc s) (clock e1 (ticks e1))))
                         (Day (civil (loc s) (clock e1 (ticks e1)))) 4 0 0 0\<rparr>)
   \<and> (authToken s' \<noteq> [] \<and> fetchData' e' = (Inr d', e1')
      \<and> Hour_of (civil (tempo_loc s') (clock e1' (ticks e1'))) < 8
    \<longrightarrow> fst (TempoSource_Fetch fetchData' s' e') =
          \<lparr>Data = Some d', Timestamp = Format_RFC3339_UTC (clock e1' (Suc (ticks e1'))),
           Error = [],
           ExpiresAt = date (tempo_loc s') (Year (civil (tempo_loc s') (clock e1' (ticks e1'))))
                         (Month (civil (tempo_loc s') (clock e1' (ticks e1'))))
                         (Day (civil (tempo_loc s') (clock e1' (ticks e1')))) 8 0 0 0\<rparr>)"
  by (simp add: ElectricitySource_Fetch_success TempoSource_Fetch_success NewResponseUntil_eq
      Let_def)

text \<open>
  The scenario of the specification: it is 03:00 in Paris; the response of either
  source expires at 04:00 (electricity) and at 08:00 (tempo) of 2024-01-15 in Paris,
  one hour and five hours after the reading. In summer, at 03:30 of 2024-07-10 in
  Paris (01:30 UTC), the response of the electricity source expires half an hour
  later, at 02:00 UTC.
\<close>

theorem Fetch_before_cutoff_witness:
  "ExpiresAt (fst (ElectricitySource_Fetch (delivers days_until_13) electricity0 (env_from T0 0)))
     = T0 + Hour
   \<and> date Europe_Paris 2024 1 15 4 0 0 0 = T0 + Hour
   \<and> Error (fst (ElectricitySource_Fetch (delivers days_until_13) electricity0 (env_from T0 0))) = []
   \<and> ExpiresAt (fst (TempoSource_Fetch (delivers ''blue'') tempo0 (env_from T0 0))) = T0 + 5 * Hour
   \<and> date Europe_Paris 2024 1 15 8 0 0 0 = T0 + 5 * Hour
   \<and> ExpiresAt (fst (ElectricitySource_Fetch (delivers days_until_13) electricity0 (env_from T1 0)))
       = T1 + 30 * Minute
   \<and> date Europe_Paris 2024 7 10 4 0 0 0 = T1 + 30 * Minute"
proof -
  let ?e0 = "\<lparr>clock = (\<lambda>n. T0 + int n), ticks = 0, upstream = Suc 0\<rparr>"
  let ?e1 = "\<lparr>clock = (\<lambda>n. T1 + int n), ticks = 0, upstream = Suc 0\<rparr>"
  have del: "delivers days_until_13 (env_from T0 0) = (Inr days_until_13, ?e0)"
     "delivers ''blue'' (env_from T0 0) = (Inr ''blue'', ?e0)"
     "delivers days_until_13 (env_from T1 0) = (Inr days_until_13, ?e1)"
     "delivers ''blue'' (env_from T1 0) = (Inr ''blue'', ?e1)"
    by (simp_all add: delivers_def env_from_def)
  have now: "clock ?e0 (ticks ?e0) = T0" "clock ?e1 (ticks ?e1) = T1"
    by simp_all
  show ?thesis
    using Fetch_before_cutoff [of electricity0 "delivers days_until_13" "env_from T0 0"
        days_until_13 ?e0 tempo0 "delivers ''blue''" "env_from T0 0" "''blue''" ?e0]
      Fetch_before_cutoff [of electricity0 "delivers days_until_13" "env_from T1 0"
        days_until_13 ?e1 tempo0 "delivers ''blue''" "env_from T1 0" "''blue''" ?e1]
    unfolding now del
    by (simp add: electricity0_def tempo0_def civil_T0 civil_T1 date_cutoffs date_T1)
qed

text \<open>
  One day after a cutoff that the location reads back as written is the cutoff of the
  next day.
\<close>

lemma AddDate_cutoff_next_day:
  assumes "civil l (date l y m d h 0 0 0) =
             \<lparr>Year = y, Month = m, Day = d, Hour_of = h, Minute_of = 0, Second_of = 0,
              Nanosecond_of = 0\<rparr>"
  shows "AddDate l (date l y m d h 0 0 0) 0 0 1 = date l y m (d + 1) h 0 0 0"
  by (simp add: AddDate_def assms)

text \<open>
  Claim C5, as the code has it. When the electricity source is configured, its data
  are fetched, the hour of the clock reading in the location of the source is 4 or
  later, and the date of the last day of the data is at least the date of the day
  before the reading (written \<^verbatim>\<open>2006-01-02\<close> and compared as strings), the response is a
  success that expires one day after 04:00 of the day of the reading:
  \<^verbatim>\<open>AddDate(0, 0, 1)\<close> of that instant. For the tempo source the same holds with 08:00
  when the hour of the reading is 11 or later. Where the location reads the cutoff
  of the day back as that day at that hour, the expiration is \<^verbatim>\<open>time.Date\<close> of the
  year, the month and the day plus one of the reading at the cutoff hour: the first
  cutoff of the next day. Before hour 4 the electricity source does not look at its
  data (claim C4 gives its expiration then).
\<close>

theorem Fetch_after_publication:
  "(username s \<noteq> [] \<and> password s \<noteq> [] \<and> fetchData e = (Inr d, e1)
      \<and> now = civil (loc s) (clock e1 (ticks e1))
      \<and> Hour_of now \<ge> 4
      \<and> Days d \<noteq> []
      \<and> Date (last (Days d)) \<ge>
          Format_DateOnly (loc s) (AddDate (loc s) (clock e1 (ticks e1)) 0 0 (- 1))
    \<longrightarrow> fst (ElectricitySource_Fetch fetchData s e) =
          \<lparr>Data = Some d, Timestamp = Format_RFC3339_UTC (clock e1 (Suc (ticks e1))), Error = [],
           ExpiresAt = AddDate (loc s)
                         (date (loc s) (Year now) (Month now) (Day now) 4 0 0 0) 0 0 1\<rparr>
        \<and> (civil (loc s) (date (loc s) (Year now) (Month now) (Day now) 4 0 0 0) =
               \<lparr>Year = Year now, Month = Month now, Day = Day now, Hour_of = 4, Minute_of = 0,
                Second_of = 0, Nanosecond_of = 0\<rparr>
             \<longrightarrow> ExpiresAt (fst (ElectricitySource_Fetch fetchData s e)) =
                   date (loc s) (Year now) (Month now) (Day now + 1) 4 0 0 0))
   \<and> (authToken s' \<noteq> [] \<and> fetchData' e' = (Inr d', e1')
      \<and> now' = civil (tempo_loc s') (clock e1' (ticks e1'))
      \<and> Hour_of now' \<ge> 11
    \<longrightarrow> fst (TempoSource_Fetch fetchData' s' e') =
          \<lparr>Data = Some d', Timestamp = Format_RFC3339_UTC (clock e1' (Suc (ticks e1'))),
           Error = [],
           ExpiresAt = AddDate (tempo_loc s')
                         (date (tempo_loc s') (Year now') (Month now') (Day now') 8 0 0 0) 0 0 1\<rparr>
        \<and> (civil (tempo_loc s') (date (tempo_loc s') (Year now') (Month now') (Day now') 8 0 0 0) =
               \<lparr>Year = Year now', Month = Month now', Day = Day now', Hour_of = 8,
                Minute_of = 0, Second_of = 0, Nanosecond_of = 0\<rparr>
             \<longrightarrow> ExpiresAt (fst (TempoSource_Fetch fetchData' s' e')) =
                   date (tempo_loc s') (Year now') (Month now') (Day now' + 1) 8 0 0 0))"
proof -
  have electricity:
    "fst (ElectricitySource_Fetch fetchData s e) =
          \<lparr>Data = Some d, Timestamp = Format_RFC3339_UTC (clock e1 (Suc (ticks e1))), Error = [],
           ExpiresAt = AddDate (loc s)
                         (date (loc s) (Year now) (Month now) (Day now) 4 0 0 0) 0 0 1\<rparr>
        \<and> (civil (loc s) (date (loc s) (Year now) (Month now) (Day now) 4 0 0 0) =
               \<lparr>Year = Year now, Month = Month now, Day = Day now, Hour_of = 4, Minute_of = 0,
                Second_of = 0, Nanosecond_of = 0\<rparr>
             \<longrightarrow> ExpiresAt (fst (ElectricitySource_Fetch fetchData s e)) =
                   date (loc s) (Year now) (Month now) (Day now + 1) 4 0 0 0)"
    if "username s \<noteq> [] \<and> password s \<noteq> [] \<and> fetchData e = (Inr d, e1)
      \<and> now = civil (loc s) (clock e1 (ticks e1))
      \<and> Hour_of now \<ge> 4
      \<and> Days d \<noteq> []
      \<and> Date (last (Days d)) \<ge>
          Format_DateOnly (loc s) (AddDate (loc s) (clock e1 (ticks e1)) 0 0 (- 1))"
  proof -
    have "fst (ElectricitySource_Fetch fetchData s e) =
          \<lparr>Data = Some d, Timestamp = Format_RFC3339_UTC (clock e1 (Suc (ticks e1))), Error = [],
           ExpiresAt = AddDate (loc s)
                         (date (loc s) (Year now) (Month now) (Day now) 4 0 0 0) 0 0 1\<rparr>"
    proof -
      from that have conf: "username s \<noteq> []" "password s \<noteq> []" "fetchData e = (Inr d, e1)"
        and now: "civil (loc s) (clock e1 (ticks e1)) = now"
        and late: "\<not> Hour_of now < 4"
        and published: "Days d \<noteq> []"
          "Format_DateOnly (loc s) (AddDate (loc s) (clock e1 (ticks e1)) 0 0 (- 1))
             \<le> Date (last (Days d))"
        by auto
      show ?thesis
        by (simp add: ElectricitySource_Fetch_success [of s fetchData e d e1, OF conf] now late
            published NewResponseUntil_eq Let_def)
    qed
    then show ?thesis
      using AddDate_cutoff_next_day [of "loc s" "Year now" "Month now" "Day now" 4] by simp
  qed
  have tempo:
    "fst (TempoSource_Fetch fetchData' s' e') =
          \<lparr>Data = Some d', Timestamp = Format_RFC3339_UTC (clock e1' (Suc (ticks e1'))),
           Error = [],
           ExpiresAt = AddDate (tempo_loc s')
                         (date (tempo_loc s') (Year now') (Month now') (Day now') 8 0 0 0) 0 0 1\<rparr>
        \<and> (civil (tempo_loc s') (date (tempo_loc s') (Year now') (Month now') (Day now') 8 0 0 0) =
               \<lparr>Year = Year now', Month = Month now', Day = Day now', Hour_of = 8,
                Minute_of = 0, Second_of = 0, Nanosecond_of = 0\<rparr>
             \<longrightarrow> ExpiresAt (fst (TempoSource_Fetch fetchData' s' e')) =
                   date (tempo_loc s') (Year now') (Month now') (Day now' + 1) 8 0 0 0)"
    if "authToken s' \<noteq> [] \<and> fetchData' e' = (Inr d', e1')
      \<and> now' = civil (tempo_loc s') (clock e1' (ticks e1'))
      \<and> Hour_of now' \<ge> 11"
  proof -
    have "fst (TempoSource_Fetch fetchData' s' e') =
          \<lparr>Data = Some d', Timestamp = Format_RFC3339_UTC (clock e1' (Suc (ticks e1'))),
           Error = [],
           ExpiresAt = AddDate (tempo_loc s')
                         (date (tempo_loc s') (Year now') (Month now') (Day now') 8 0 0 0) 0 0 1\<rparr>"
    proof -
      from that have conf: "authToken s' \<noteq> []" "fetchData' e' = (Inr d', e1')"
        and now: "civil (tempo_loc s') (clock e1' (ticks e1')) = now'"
        and late: "\<not> Hour_of now' < 8" "Hour_of now' \<ge> 11"
        by auto
      show ?thesis
        by (simp add: TempoSource_Fetch_success [of s' fetchData' e' d' e1', OF conf] now late
            NewResponseUntil_eq Let_def)
    qed
    then show ?thesis
      using AddDate_cutoff_next_day [of "tempo_loc s'" "Year now'" "Month now'" "Day now'" 8]
      by simp
  qed
  show ?thesis
    using electricity tempo by (intro conjI impI) blast+
qed

text \<open>
  At 12:00 of 2024-01-15 in Paris, with data up to 2024-01-14, the response of
  the electricity source expires at 04:00 of 2024-01-16, and that of the tempo source
  at 08:00 of 2024-01-16.
\<close>

theorem Fetch_after_publication_witness:
  "ExpiresAt (fst (ElectricitySource_Fetch (delivers days_until_14) electricity0
                     (env_from (T0 + 9 * Hour) 0))) = T0 + 25 * Hour
   \<and> date Europe_Paris 2024 1 16 4 0 0 0 = T0 + 25 * Hour
   \<and> ExpiresAt (fst (TempoSource_Fetch (delivers ''blue'') tempo0 (env_from (T0 + 9 * Hour) 0)))
       = T0 + 29 * Hour
   \<and> date Europe_Paris 2024 1 16 8 0 0 0 = T0 + 29 * Hour"
proof -
  let ?e1 = "\<lparr>clock = (\<lambda>n. T0 + 9 * Hour + int n), ticks = 0, upstream = Suc 0\<rparr>"
  let ?now = "\<lparr>Year = 2024, Month = 1, Day = 15, Hour_of = 12, Minute_of = 0, Second_of = 0,
               Nanosecond_of = 0\<rparr>"
  have del: "delivers days_until_14 (env_from (T0 + 9 * Hour) 0) = (Inr days_until_14, ?e1)"
     "delivers ''blue'' (env_from (T0 + 9 * Hour) 0) = (Inr ''blue'', ?e1)"
    by (simp_all add: delivers_def env_from_def)
  have now: "clock ?e1 (ticks ?e1) = T0 + 9 * Hour"
    by simp
  show ?thesis
    using Fetch_after_publication [of electricity0 "delivers days_until_14"
        "env_from (T0 + 9 * Hour) 0" days_until_14 ?e1 ?now
        tempo0 "delivers ''blue''" "env_from (T0 + 9 * Hour) 0" "''blue''" ?e1 ?now]
    unfolding now del
    by (simp add: electricity0_def tempo0_def civil_T0_9h civil_cutoffs date_cutoffs
        AddDate_cutoffs yesterday_T0 last_days compare_days)
qed

text \<open>
  At 03:00 of 2024-01-15 in Paris the data already reach 2024-01-14, the day
  before: the response expires at 04:00 of 2024-01-15, not at 04:00 of 2024-01-16.
\<close>

theorem Fetch_early_data_counterexample:
  "Hour_of (civil (loc electricity0) T0) = 3
   \<and> Format_DateOnly (loc electricity0) (AddDate (loc electricity0) T0 0 0 (- 1))
       \<le> Date (last (Days days_until_14))
   \<and> ExpiresAt (fst (ElectricitySource_Fetch (delivers days_until_14) electricity0
                       (env_from T0 0))) = date (loc electricity0) 2024 1 15 4 0 0 0
   \<and> ExpiresAt (fst (ElectricitySource_Fetch (delivers days_until_14) electricity0
                       (env_from T0 0))) \<noteq> date (loc electricity0) 2024 1 16 4 0 0 0"
proof -
  let ?e1 = "\<lparr>clock = (\<lambda>n. T0 + int n), ticks = 0, upstream = Suc 0\<rparr>"
  have del: "delivers days_until_14 (env_from T0 0) = (Inr days_until_14, ?e1)"
    by (simp add: delivers_def env_from_def)
  have conf: "username electricity0 \<noteq> []" "password electricity0 \<noteq> []"
      "loc electricity0 = Europe_Paris"
    by (simp_all add: electricity0_def)
  have "ExpiresAt (fst (ElectricitySource_Fetch (delivers days_until_14) electricity0
                       (env_from T0 0))) = T0 + Hour"
    using ElectricitySource_Fetch_success [of electricity0 "delivers days_until_14"
        "env_from T0 0" days_until_14 ?e1, OF conf(1,2) del]
    by (simp add: conf(3) civil_T0 NewResponseUntil_eq date_cutoffs)
  then show ?thesis
    by (simp add: conf(3) civil_T0 yesterday_T0 last_days compare_days date_cutoffs
        Hour_def Minute_def Second_def)
qed

subsection \<open>Fetching all sources\<close>

text \<open>
  What a step changes: never the names and the sources of the goroutines, never an
  entry of the map that is there, and a goroutine that becomes done has stored its
  response.
\<close>

lemma advance_tasks: "tasks (snd (advance n s st cfg)) = tasks cfg"
  by (cases st) (auto split: prod.splits option.splits)

lemma advance_results_mono:
  "results cfg m \<noteq> None \<Longrightarrow> results (snd (advance n s st cfg)) m \<noteq> None"
  by (cases st) (auto split: prod.splits option.splits)

lemma advance_Done:
  "fst (advance n s st cfg) = Done \<Longrightarrow> st \<noteq> Done \<Longrightarrow> results (snd (advance n s st cfg)) n \<noteq> None"
  by (cases st) (auto split: prod.splits option.splits if_splits)

lemma advance_steps_left: "steps_left (fst (advance n s st cfg)) \<le> steps_left st - 1"
  by (cases st) (auto split: prod.splits option.splits)

lemma step_eq:
  assumes "i < length (tasks cfg)" and "tasks cfg ! i = (n, s, st)"
  shows "step i cfg =
           (snd (advance n s st cfg))\<lparr>tasks := (tasks cfg)[i := (n, s, fst (advance n s st cfg))]\<rparr>"
  using assms by (simp add: step_def case_prod_beta)

lemma step_length: "length (tasks (step i cfg)) = length (tasks cfg)"
  by (simp add: step_def split: prod.splits)

lemma step_names:
  "map (\<lambda>(n, s, st). (n, s)) (tasks (step i cfg)) = map (\<lambda>(n, s, st). (n, s)) (tasks cfg)"
proof (cases "i < length (tasks cfg)")
  case True
  obtain n s st where t: "tasks cfg ! i = (n, s, st)" by (cases "tasks cfg ! i") auto
  have "map (\<lambda>(n, s, st). (n, s)) ((tasks cfg)[i := (n, s, fst (advance n s st cfg))]) =
          (map (\<lambda>(n, s, st). (n, s)) (tasks cfg))[i := (n, s)]"
    by (simp add: map_update)
  also have "\<dots> = map (\<lambda>(n, s, st). (n, s)) (tasks cfg)"
    using True t by (simp add: list_update_same_conv)
  finally show ?thesis
    by (simp add: step_eq [OF True t])
next
  case False
  then show ?thesis by (simp add: step_def)
qed

lemma step_results_mono: "results cfg m \<noteq> None \<Longrightarrow> results (step i cfg) m \<noteq> None"
proof (cases "i < length (tasks cfg)")
  case True
  assume m: "results cfg m \<noteq> None"
  obtain n s st where t: "tasks cfg ! i = (n, s, st)" by (cases "tasks cfg ! i") auto
  show ?thesis
    using advance_results_mono [OF m, of n s st]
    by (simp add: step_eq [OF True t])
next
  case False
  assume "results cfg m \<noteq> None"
  with False show ?thesis by (simp add: step_def)
qed

lemma step_stored:
  assumes "stored cfg"
  shows "stored (step i cfg)"
proof (cases "i < length (tasks cfg)")
  case False
  with assms show ?thesis by (simp add: step_def)
next
  case True
  obtain n s st where t: "tasks cfg ! i = (n, s, st)" by (cases "tasks cfg ! i") auto
  let ?st1 = "fst (advance n s st cfg)" and ?cfg1 = "snd (advance n s st cfg)"
  have tasks1: "tasks (step i cfg) = (tasks cfg)[i := (n, s, ?st1)]"
    and results1: "results (step i cfg) = results ?cfg1"
    by (simp_all add: step_eq [OF True t])
  have mem: "(n, s, st) \<in> set (tasks cfg)"
    using True t by (metis nth_mem)
  show ?thesis
    unfolding stored_def
  proof (intro ballI, clarify)
    fix n' s' assume el: "(n', s', Done) \<in> set (tasks (step i cfg))"
    then have "(n', s', Done) = (n, s, ?st1) \<or> (n', s', Done) \<in> set (tasks cfg)"
      unfolding tasks1 using set_update_subset_insert [of "tasks cfg" i "(n, s, ?st1)"] by auto
    then show "\<exists>y. results (step i cfg) n' = Some y"
    proof
      assume new: "(n', s', Done) = (n, s, ?st1)"
      show ?thesis
      proof (cases "st = Done")
        case True
        with mem assms have "results cfg n \<noteq> None" by (auto simp: stored_def)
        then have "results ?cfg1 n \<noteq> None" by (rule advance_results_mono)
        with new show ?thesis by (simp add: results1)
      next
        case False
        from new have "?st1 = Done" by simp
        then have "results ?cfg1 n \<noteq> None" using False by (rule advance_Done)
        with new show ?thesis by (simp add: results1)
      qed
    next
      assume "(n', s', Done) \<in> set (tasks cfg)"
      with assms have "results cfg n' \<noteq> None" by (auto simp: stored_def)
      then have "results (step i cfg) n' \<noteq> None" by (rule step_results_mono)
      then show ?thesis by auto
    qed
  qed
qed

lemma run_stored: "stored cfg \<Longrightarrow> stored (run sched cfg)"
  by (induction sched arbitrary: cfg) (simp_all add: step_stored)

lemma run_names:
  "map (\<lambda>(n, s, st). (n, s)) (tasks (run sched cfg)) = map (\<lambda>(n, s, st). (n, s)) (tasks cfg)"
  by (induction sched arbitrary: cfg) (simp_all add: step_names)

text \<open>When all goroutines are done, the map has an entry for the key of every source.\<close>

lemma all_done_results:
  assumes finished: "all_done (run sched cfg)"
      and init: "stored cfg"
      and key: "n \<in> (\<lambda>(n, s, st). n) ` set (tasks cfg)"
  shows "results (run sched cfg) n \<noteq> None"
proof -
  have "(\<lambda>(n, s, st). n) ` set (tasks (run sched cfg)) = (\<lambda>(n, s, st). n) ` set (tasks cfg)"
  proof -
    have "(\<lambda>(n, s, st). n) ` set (tasks c) = fst ` set (map (\<lambda>(n, s, st). (n, s)) (tasks c))"
      for c :: "('a, 'b) config"
      by (force simp: image_iff)
    then show ?thesis by (simp only: run_names)
  qed
  with key have "n \<in> (\<lambda>(n, s, st). n) ` set (tasks (run sched cfg))"
    by simp
  then obtain s st where el: "(n, s, st) \<in> set (tasks (run sched cfg))"
    by auto
  with finished have "st = Done"
    by (auto simp: all_done_def list_all_iff)
  with el run_stored [OF init, of sched] show ?thesis
    by (auto simp: stored_def)
qed

text \<open>
  Progress: a step of a goroutine takes one of the steps it has left, and leaves the
  other goroutines where they are. A schedule that gives every goroutine five steps
  ends with all of them done.
\<close>

lemma step_steps_left_same:
  assumes "i < length (tasks cfg)"
  shows "steps_left (task_state (step i cfg) i) \<le> steps_left (task_state cfg i) - 1"
proof -
  obtain n s st where t: "tasks cfg ! i = (n, s, st)" by (cases "tasks cfg ! i") auto
  show ?thesis
    using assms advance_steps_left [of n s st cfg]
    by (simp add: step_eq [OF assms t] task_state_def t)
qed

lemma step_task_state_other: "j \<noteq> i \<Longrightarrow> task_state (step i cfg) j = task_state cfg j"
proof (cases "i < length (tasks cfg)")
  case True
  assume "j \<noteq> i"
  obtain n s st where t: "tasks cfg ! i = (n, s, st)" by (cases "tasks cfg ! i") auto
  show ?thesis
    using \<open>j \<noteq> i\<close> by (simp add: step_eq [OF True t] task_state_def)
next
  case False
  then show ?thesis by (simp add: step_def)
qed

lemma run_length: "length (tasks (run sched cfg)) = length (tasks cfg)"
  by (induction sched arbitrary: cfg) (simp_all add: step_length)

lemma run_steps_left:
  "j < length (tasks cfg) \<Longrightarrow>
     steps_left (task_state (run sched cfg) j) \<le> steps_left (task_state cfg j) - count_list sched j"
proof (induction sched arbitrary: cfg)
  case Nil
  show ?case by simp
next
  case (Cons i sched)
  from Cons.prems have j: "j < length (tasks (step i cfg))" by (simp add: step_length)
  have ih: "steps_left (task_state (run sched (step i cfg)) j)
              \<le> steps_left (task_state (step i cfg) j) - count_list sched j"
    using Cons.IH [OF j] .
  show ?case
  proof (cases "i = j")
    case True
    with Cons.prems have "steps_left (task_state (step i cfg) j) \<le> steps_left (task_state cfg j) - 1"
      using step_steps_left_same [of j cfg] by simp
    with ih True show ?thesis by simp
  next
    case False
    then have "task_state (step i cfg) j = task_state cfg j"
      using step_task_state_other [of j i cfg] by simp
    with ih False show ?thesis by simp
  qed
qed

lemma steps_left_0: "steps_left st = 0 \<longleftrightarrow> st = Done"
  by (cases st) simp_all

lemma all_done_iff: "all_done cfg \<longleftrightarrow> (\<forall>j < length (tasks cfg). task_state cfg j = Done)"
  by (simp add: all_done_def list_all_length task_state_def case_prod_beta)

lemma fair_all_done:
  assumes "\<forall>j < length (tasks cfg). steps_left (task_state cfg j) \<le> count_list sched j"
  shows "all_done (run sched cfg)"
  unfolding all_done_iff run_length
proof (intro allI impI)
  fix j assume j: "j < length (tasks cfg)"
  with assms run_steps_left [OF j, of sched]
  have "steps_left (task_state (run sched cfg) j) = 0" by auto
  then show "task_state (run sched cfg) j = Done" by (simp add: steps_left_0)
qed

lemma start_config_tasks:
  "length (tasks (start_config c sources e)) = length sources"
  "j < length sources \<Longrightarrow> task_state (start_config c sources e) j = Start"
  "stored (start_config c sources e)"
  "(\<lambda>(n, s, st). n) ` set (tasks (start_config c sources e)) = fst ` set sources"
  by (force simp: start_config_def task_state_def stored_def image_iff case_prod_beta)+

lemma fetchAll_Some:
  assumes "fetchAll c sources sched e = Some (d, c', e')"
  shows "all_done (run sched (start_config c sources e))"
    and "d = \<lparr>Weather = results (run sched (start_config c sources e)) ''weather'',
              Transport = results (run sched (start_config c sources e)) ''transport'',
              Temperature = results (run sched (start_config c sources e)) ''temperature'',
              Electricity = results (run sched (start_config c sources e)) ''electricity'',
              Tempo = results (run sched (start_config c sources e)) ''tempo'',
              All_Timestamp = Format_RFC3339_UTC
                (clock (world (run sched (start_config c sources e)))
                   (ticks (world (run sched (start_config c sources e)))))\<rparr>"
    and "c' = shared (run sched (start_config c sources e))"
    and "e' = (world (run sched (start_config c sources e)))
                \<lparr>ticks := Suc (ticks (world (run sched (start_config c sources e))))\<rparr>"
  using assms
  by (auto simp: fetchAll_def Let_def time_Now_def split: if_splits)

lemma fetchAll_fair:
  assumes "\<forall>j < length sources. 5 \<le> count_list sched j"
  shows "fetchAll c sources sched e \<noteq> None"
proof -
  have "all_done (run sched (start_config c sources e))"
    using assms by (intro fair_all_done) (simp add: start_config_tasks)
  then show ?thesis
    by (simp add: fetchAll_def Let_def time_Now_def)
qed

text \<open>
  The steps of a goroutine are those of \<^verbatim>\<open>fetchCached\<close>: a goroutine that takes its
  five steps in a row runs \<^verbatim>\<open>fetchCached\<close> on the cache and the world as they are, and
  stores the response under its key.
\<close>

lemma advance_tasks_update:
  "advance n s st (cfg\<lparr>tasks := ts\<rparr>) =
     (fst (advance n s st cfg), (snd (advance n s st cfg))\<lparr>tasks := ts\<rparr>)"
  by (cases st) (auto split: prod.splits option.splits)

lemma advance_by_tasks_update:
  "advance_by k n s st (cfg\<lparr>tasks := ts\<rparr>) =
     (fst (advance_by k n s st cfg), (snd (advance_by k n s st cfg))\<lparr>tasks := ts\<rparr>)"
proof (induction k arbitrary: st cfg)
  case 0
  show ?case by simp
next
  case (Suc k)
  show ?case
    by (simp add: advance_tasks_update Suc.IH case_prod_beta)
qed

lemma advance_by_tasks: "tasks (snd (advance_by k n s st cfg)) = tasks cfg"
proof (induction k arbitrary: st cfg)
  case 0
  show ?case by simp
next
  case (Suc k)
  show ?case
    by (simp add: Suc.IH case_prod_beta advance_tasks)
qed

lemma run_replicate:
  assumes "i < length (tasks cfg)" and "tasks cfg ! i = (n, s, st)"
  shows "run (replicate k i) cfg =
           (snd (advance_by k n s st cfg))
             \<lparr>tasks := (tasks cfg)[i := (n, s, fst (advance_by k n s st cfg))]\<rparr>"
  using assms
proof (induction k arbitrary: st cfg)
  case 0
  then have "(tasks cfg)[i := (n, s, st)] = tasks cfg"
    by (metis list_update_id)
  then show ?case by simp
next
  case (Suc k)
  let ?st1 = "fst (advance n s st cfg)" and ?cfg1 = "snd (advance n s st cfg)"
  let ?cfg' = "?cfg1\<lparr>tasks := (tasks cfg)[i := (n, s, ?st1)]\<rparr>"
  have st: "step i cfg = ?cfg'"
    using step_eq [OF Suc.prems] .
  have i': "i < length (tasks ?cfg')" and t': "tasks ?cfg' ! i = (n, s, ?st1)"
    using Suc.prems(1) by simp_all
  show ?case
    using Suc.IH [OF i' t']
    by (simp add: st advance_by_tasks_update case_prod_beta)
qed

lemma advance_by_5_Start:
  "advance_by 5 n s Start cfg =
     (Done,
      cfg\<lparr>shared := fst (snd (fetchCached (shared cfg) s (world cfg))),
          world := snd (snd (fetchCached (shared cfg) s (world cfg))),
          results := (results cfg)(n \<mapsto> fst (fetchCached (shared cfg) s (world cfg)))\<rparr>)"
  by (auto simp: numeral_eq_Suc fetchCached_def Let_def split: prod.splits option.splits)

lemma run_alone:
  assumes "i < length (tasks cfg)" and "tasks cfg ! i = (n, s, Start)"
  shows "run (replicate 5 i) cfg =
           cfg\<lparr>shared := fst (snd (fetchCached (shared cfg) s (world cfg))),
               world := snd (snd (fetchCached (shared cfg) s (world cfg))),
               results := (results cfg)(n \<mapsto> fst (fetchCached (shared cfg) s (world cfg))),
               tasks := (tasks cfg)[i := (n, s, Done)]\<rparr>"
  by (simp add: run_replicate [OF assms] advance_by_5_Start)

text \<open>
  The response of \<^verbatim>\<open>fetchCached\<close> is \<open>response_at\<close> the three configurations that
  \<^verbatim>\<open>fetchCached\<close> passes through when it runs alone. The account of a goroutine is
  kept by its own steps and by the steps of the others, whose keys in the map are
  different.
\<close>

lemma fetchCached_response_at:
  "fst (fetchCached c s e) =
     response_at s \<lparr>shared = c, world = e, results = r, tasks = ts\<rparr>
       \<lparr>shared = c, world = snd (Cache_Get c (Name s) e), results = r, tasks = ts\<rparr>
       \<lparr>shared = c, world = snd (Fetch s (snd (Cache_Get c (Name s) e))), results = r,
        tasks = ts\<rparr>"
  by (simp add: fetchCached_def response_at_def Let_def split: prod.splits option.splits)

lemma accountedI:
  "k1 \<le> k2 \<Longrightarrow> k2 \<le> k3 \<Longrightarrow> k3 \<le> L \<Longrightarrow> account cfgs s st entry k1 k2 k3
     \<Longrightarrow> accounted cfgs L s st entry"
  unfolding accounted_def by blast

lemma accounted_mono:
  assumes "accounted cfgs L s st entry" and "L \<le> L'"
  shows "accounted cfgs L' s st entry"
proof -
  from assms(1) obtain k1 k2 k3 where
    k: "k1 \<le> k2" "k2 \<le> k3" "k3 \<le> L" and a: "account cfgs s st entry k1 k2 k3"
    unfolding accounted_def by blast
  from k(3) assms(2) have "k3 \<le> L'" by simp
  with k(1,2) show ?thesis using a by (intro accountedI [of k1 k2 k3])
qed

lemma account_cong:
  "cfgs k1 = cfgs' k1 \<Longrightarrow> cfgs k2 = cfgs' k2 \<Longrightarrow> cfgs k3 = cfgs' k3
     \<Longrightarrow> account cfgs s st entry k1 k2 k3 = account cfgs' s st entry k1 k2 k3"
  by (simp add: account_def split: task.splits)

lemma accounted_cong:
  assumes "accounted cfgs L s st entry" and same: "\<And>k. k \<le> L \<Longrightarrow> cfgs k = cfgs' k"
  shows "accounted cfgs' L s st entry"
proof -
  from assms(1) obtain k1 k2 k3 where
    k: "k1 \<le> k2" "k2 \<le> k3" "k3 \<le> L" and a: "account cfgs s st entry k1 k2 k3"
    unfolding accounted_def by blast
  from k have "cfgs k1 = cfgs' k1" "cfgs k2 = cfgs' k2" "cfgs k3 = cfgs' k3"
    by (simp_all add: same)
  then have "account cfgs s st entry k1 k2 k3 = account cfgs' s st entry k1 k2 k3"
    by (rule account_cong)
  with a have "account cfgs' s st entry k1 k2 k3"
    by simp
  with k show ?thesis by (rule accountedI)
qed

lemma accounted_advance:
  assumes acc: "accounted cfgs L s st (results cur n)" and cur: "cfgs L = cur"
  shows "accounted cfgs L s (fst (advance n s st cur)) (results (snd (advance n s st cur)) n)"
proof -
  from acc obtain k1 k2 k3 where
    k: "k1 \<le> k2" "k2 \<le> k3" "k3 \<le> L" and a: "account cfgs s st (results cur n) k1 k2 k3"
    unfolding accounted_def by blast
  show ?thesis
  proof (cases st)
    case Start
    show ?thesis
    proof (cases "fst (Cache_Get (shared cur) (Name s) (world cur))")
      case None
      with Start cur have "account cfgs s (fst (advance n s st cur))
                             (results (snd (advance n s st cur)) n) L L L"
        by (auto simp: account_def split: prod.splits)
      then show ?thesis by (intro accountedI [of L L L]) simp_all
    next
      case (Some cached)
      then have "response_at s cur cur cur = cached"
        by (simp add: response_at_def)
      with Start Some cur have "account cfgs s (fst (advance n s st cur))
                             (results (snd (advance n s st cur)) n) L L L"
        by (auto simp: account_def split: prod.splits)
      then show ?thesis by (intro accountedI [of L L L]) simp_all
    qed
  next
    case Missed
    with a cur have "account cfgs s (fst (advance n s st cur))
                       (results (snd (advance n s st cur)) n) k1 L L"
      by (auto simp: account_def split: prod.splits)
    with k show ?thesis by (intro accountedI [of k1 L L]) simp_all
  next
    case (Fetched resp)
    with a have miss: "fst (Cache_Get (shared (cfgs k1)) (Name s) (world (cfgs k1))) = None"
      and resp: "resp = fst (Fetch s (world (cfgs k2)))"
      by (simp_all add: account_def)
    have "fst (advance n s st cur) = ToSet (response_at s (cfgs k1) (cfgs k2) (cfgs L))"
      using Fetched miss resp cur
      by (auto simp: response_at_def Let_def split: prod.splits option.splits)
    with miss have "account cfgs s (fst (advance n s st cur))
                       (results (snd (advance n s st cur)) n) k1 k2 L"
      by (simp add: account_def)
    with k show ?thesis by (intro accountedI [of k1 k2 L]) simp_all
  next
    case (ToSet r)
    with a have "account cfgs s (fst (advance n s st cur))
                   (results (snd (advance n s st cur)) n) k1 k2 k3"
      by (auto simp: account_def split: prod.splits)
    with k show ?thesis by (rule accountedI)
  next
    case (Got r)
    with a have "account cfgs s (fst (advance n s st cur))
                   (results (snd (advance n s st cur)) n) k1 k2 k3"
      by (auto simp: account_def split: prod.splits)
    with k show ?thesis by (rule accountedI)
  next
    case Done
    with a have "account cfgs s (fst (advance n s st cur))
                   (results (snd (advance n s st cur)) n) k1 k2 k3"
      by (auto simp: account_def split: prod.splits)
    with k show ?thesis by (rule accountedI)
  qed
qed

text \<open>Steps of the other goroutines.\<close>

lemma advance_results_other: "m \<noteq> n \<Longrightarrow> results (snd (advance n s st cfg)) m = results cfg m"
  by (cases st) (auto split: prod.splits option.splits)

lemma step_other:
  assumes "i < length (tasks cfg)" and "j \<noteq> i"
  shows "tasks (step j cfg) ! i = tasks cfg ! i"
proof (cases "j < length (tasks cfg)")
  case True
  obtain n s st where t: "tasks cfg ! j = (n, s, st)" by (cases "tasks cfg ! j") auto
  show ?thesis
    using assms by (simp add: step_eq [OF True t])
next
  case False
  then show ?thesis by (simp add: step_def)
qed

lemma step_results_other:
  assumes "i < length (tasks cfg)" and "j \<noteq> i" and "distinct (map fst (tasks cfg))"
  shows "results (step j cfg) (fst (tasks cfg ! i)) = results cfg (fst (tasks cfg ! i))"
proof (cases "j < length (tasks cfg)")
  case True
  obtain n s st where t: "tasks cfg ! j = (n, s, st)" by (cases "tasks cfg ! j") auto
  have "map fst (tasks cfg) ! i \<noteq> map fst (tasks cfg) ! j"
    using assms True by (simp add: nth_eq_iff_index_eq del: nth_map)
  then have "fst (tasks cfg ! i) \<noteq> n"
    using assms(1) True t by simp
  then show ?thesis
    by (simp add: step_eq [OF True t] advance_results_other)
next
  case False
  then show ?thesis by (simp add: step_def)
qed

lemma run_snoc: "run (sched @ [j]) cfg = step j (run sched cfg)"
  by (induction sched arbitrary: cfg) simp_all

lemma run_append: "run (xs @ ys) cfg = run ys (run xs cfg)"
  by (induction xs arbitrary: cfg) simp_all

lemma run_key:
  assumes "i < length (tasks cfg)"
  shows "fst (tasks (run sched cfg) ! i) = fst (tasks cfg ! i)"
    and "fst (snd (tasks (run sched cfg) ! i)) = fst (snd (tasks cfg ! i))"
proof -
  have "map (\<lambda>(n, s, st). (n, s)) (tasks (run sched cfg)) ! i
          = map (\<lambda>(n, s, st). (n, s)) (tasks cfg) ! i"
    by (simp only: run_names)
  then have "(\<lambda>(n, s, st). (n, s)) (tasks (run sched cfg) ! i) = (\<lambda>(n, s, st). (n, s)) (tasks cfg ! i)"
    using assms by (simp add: run_length)
  then show "fst (tasks (run sched cfg) ! i) = fst (tasks cfg ! i)"
    and "fst (snd (tasks (run sched cfg) ! i)) = fst (snd (tasks cfg ! i))"
    by (simp_all add: case_prod_beta)
qed

lemma run_distinct:
  "distinct (map fst (tasks (run sched cfg))) = distinct (map fst (tasks cfg))"
proof -
  have "map fst (tasks c) = map fst (map (\<lambda>(n, s, st). (n, s)) (tasks c))"
    for c :: "('a, 'b) config"
    by (simp add: case_prod_beta comp_def)
  then show ?thesis by (simp only: run_names)
qed

text \<open>The account of a goroutine, under any schedule.\<close>

lemma run_accounted:
  assumes i: "i < length (tasks cfg)" and start: "tasks cfg ! i = (n, s, Start)"
      and keys: "distinct (map fst (tasks cfg))"
  shows "accounted (\<lambda>k. run (take k sched) cfg) (length sched) s
           (task_state (run sched cfg) i) (results (run sched cfg) n)"
proof (induction sched rule: rev_induct)
  case Nil
  from start show ?case
    by (simp add: accounted_def account_def task_state_def)
next
  case (snoc j sched)
  let ?cur = "run sched cfg"
  let ?L = "length sched"
  have len: "i < length (tasks ?cur)"
    using i by (simp add: run_length)
  have key: "fst (tasks ?cur ! i) = n" and src: "fst (snd (tasks ?cur ! i)) = s"
    using run_key [OF i, of sched] start by simp_all
  then have t: "tasks ?cur ! i = (n, s, task_state ?cur i)"
    by (simp add: task_state_def prod_eq_iff)
  have old: "accounted (\<lambda>k. run (take k (sched @ [j])) cfg) ?L s
               (task_state ?cur i) (results ?cur n)"
    using snoc.IH by (rule accounted_cong) simp
  have new: "accounted (\<lambda>k. run (take k (sched @ [j])) cfg) ?L s
               (task_state (step j ?cur) i) (results (step j ?cur) n)"
  proof (cases "j = i")
    case True
    have "accounted (\<lambda>k. run (take k (sched @ [j])) cfg) ?L s
            (fst (advance n s (task_state ?cur i) ?cur))
            (results (snd (advance n s (task_state ?cur i) ?cur)) n)"
      using old by (rule accounted_advance) simp
    then show ?thesis
      using len True by (simp add: step_eq [OF len t] task_state_def)
  next
    case False
    have "tasks (step j ?cur) ! i = tasks ?cur ! i"
      using len False by (rule step_other)
    moreover have "results (step j ?cur) n = results ?cur n"
      using step_results_other [OF len False] keys key by (simp add: run_distinct)
    ultimately show ?thesis
      using old by (simp add: task_state_def)
  qed
  show ?case
    using accounted_mono [OF new, of "length (sched @ [j])"] by (simp add: run_snoc)
qed

text \<open>A goroutine that is done keeps its entry.\<close>

lemma run_Done:
  assumes "i < length (tasks cfg)" and "tasks cfg ! i = (n, s, Done)"
      and "distinct (map fst (tasks cfg))"
  shows "results (run sched cfg) n = results cfg n"
  using assms
proof (induction sched arbitrary: cfg)
  case Nil
  show ?case by simp
next
  case (Cons j sched)
  have len: "i < length (tasks (step j cfg))"
    using Cons.prems(1) by (simp add: step_length)
  have keys: "distinct (map fst (tasks (step j cfg)))"
    using run_distinct [of "[j]" cfg] Cons.prems(3) by simp
  have "tasks (step j cfg) ! i = (n, s, Done) \<and> results (step j cfg) n = results cfg n"
  proof (cases "j = i")
    case True
    with Cons.prems show ?thesis
      by (simp add: step_eq [OF Cons.prems(1,2)])
  next
    case False
    with Cons.prems step_other [of i cfg j] step_results_other [of i cfg j]
    show ?thesis by simp
  qed
  with Cons.IH [OF len _ keys] show ?case by simp
qed

lemma run_untouched:
  assumes "i < length (tasks cfg)" and "i \<notin> set sched"
  shows "tasks (run sched cfg) ! i = tasks cfg ! i"
  using assms
proof (induction sched arbitrary: cfg)
  case Nil
  show ?case by simp
next
  case (Cons j sched)
  then have "tasks (step j cfg) ! i = tasks cfg ! i"
    by (intro step_other) auto
  with Cons show ?case by (simp add: step_length)
qed

lemma run_uninterrupted:
  assumes i: "i < length (tasks cfg)" and start: "tasks cfg ! i = (n, s, Start)"
      and keys: "distinct (map fst (tasks cfg))" and pre: "i \<notin> set pre"
  shows "results (run (pre @ replicate 5 i @ post) cfg) n =
           Some (fst (fetchCached (shared (run pre cfg)) s (world (run pre cfg))))"
proof -
  let ?p = "run pre cfg"
  have len: "i < length (tasks ?p)"
    using i by (simp add: run_length)
  have t: "tasks ?p ! i = (n, s, Start)"
    using run_untouched [OF i pre] start by simp
  let ?q = "run (replicate 5 i) ?p"
  have q: "?q = ?p\<lparr>shared := fst (snd (fetchCached (shared ?p) s (world ?p))),
                   world := snd (snd (fetchCached (shared ?p) s (world ?p))),
                   results := (results ?p)(n \<mapsto> fst (fetchCached (shared ?p) s (world ?p))),
                   tasks := (tasks ?p)[i := (n, s, Done)]\<rparr>"
    using len t by (rule run_alone)
  have len': "i < length (tasks ?q)" and t': "tasks ?q ! i = (n, s, Done)"
    and r': "results ?q n = Some (fst (fetchCached (shared ?p) s (world ?p)))"
    using len by (simp_all add: q)
  have keys': "distinct (map fst (tasks ?q))"
    using keys by (simp only: run_distinct)
  have "results (run post ?q) n = results ?q n"
    using len' t' keys' by (rule run_Done)
  with r' show ?thesis
    by (simp only: run_append)
qed

text \<open>
  Without configuration, \<^verbatim>\<open>Fetch\<close> of the electricity and of the tempo source is the
  \<^verbatim>\<open>Fetch\<close> of the sources used below.
\<close>

lemma ElectricitySource_Fetch_unconfigured:
  "username s = [] \<or> password s = [] \<Longrightarrow>
     ElectricitySource_Fetch fetchData s = Fetch ElectricitySource_unconfigured"
  by (rule ext) (simp add: ElectricitySource_Fetch_def ElectricitySource_unconfigured_def)

lemma TempoSource_Fetch_unconfigured:
  "authToken s = [] \<Longrightarrow> TempoSource_Fetch fetchData s = Fetch TempoSource_unconfigured"
  by (rule ext) (simp add: TempoSource_Fetch_def TempoSource_unconfigured_def)

text \<open>
  Claim C7. \<^verbatim>\<open>fetchAll\<close> returns exactly when every goroutine is done (the join), under
  any schedule of the goroutines. Whenever it returns:

  \<^item> the map of results has an entry for the key of every source, and the five fields
    of the combined structure are the entries of the five keys: with the five sources
    of \<^verbatim>\<open>main\<close> all five are present, whether the response of a source is a success or
    an error;
  \<^item> the keys of a Go map being distinct, the entry of every source \<open>(n, s)\<close> is the
    response that \<^verbatim>\<open>fetchCached\<close> returned to its goroutine: the cached response if
    \<^verbatim>\<open>cache.Get\<close> found one at a moment \<open>k1\<close> of the run, and otherwise the response
    of \<^verbatim>\<open>s.Fetch\<close>, called at a moment \<open>k2\<close>, which if it is an error is merged with
    the backup that \<^verbatim>\<open>cache.GetBackup\<close> found at a moment \<open>k3\<close>, if any
    (\<open>k1 \<le> k2 \<le> k3\<close>, a moment being the number of steps taken);
  \<^item> if the goroutine takes its five steps without a step of another goroutine in
    between, its entry is the response of \<^verbatim>\<open>fetchCached\<close> on the cache and the world
    it starts in;
  \<^item> the timestamp of the structure is formatted from a reading of the clock taken in
    the state in which all goroutines are done, and from no response: it is one more
    reading of the clock, the only change that \<^verbatim>\<open>fetchAll\<close> itself makes to the cache
    and the world that the goroutines leave.

  And \<^verbatim>\<open>fetchAll\<close> does return under every schedule that gives each goroutine the five
  steps it needs at most.
\<close>

theorem fetchAll_joins:
  "(let start = start_config c sources e; final = run sched start in
      (fetchAll c sources sched e \<noteq> None \<longleftrightarrow> all_done final)
    \<and> (fetchAll c sources sched e = Some (d, c', e') \<longrightarrow>
         all_done final
       \<and> (\<forall>n \<in> fst ` set sources. results final n \<noteq> None)
       \<and> Weather d = results final ''weather''
       \<and> Transport d = results final ''transport''
       \<and> Temperature d = results final ''temperature''
       \<and> Electricity d = results final ''electricity''
       \<and> Tempo d = results final ''tempo''
       \<and> (fst ` set sources =
             {''weather'', ''transport'', ''temperature'', ''electricity'', ''tempo''}
           \<longrightarrow> Weather d \<noteq> None \<and> Transport d \<noteq> None \<and> Temperature d \<noteq> None
               \<and> Electricity d \<noteq> None \<and> Tempo d \<noteq> None)
       \<and> (distinct (map fst sources) \<longrightarrow>
            (\<forall>i n s. i < length sources \<and> sources ! i = (n, s) \<longrightarrow>
               (\<exists>k1 k2 k3. k1 \<le> k2 \<and> k2 \<le> k3 \<and> k3 \<le> length sched
                  \<and> results final n =
                      Some (case fst (Cache_Get (shared (run (take k1 sched) start)) (Name s)
                                        (world (run (take k1 sched) start))) of
                              Some cached \<Rightarrow> cached
                            | None \<Rightarrow>
                                (let resp = fst (Fetch s (world (run (take k2 sched) start)))
                                 in if Error resp \<noteq> []
                                    then (case fst (Cache_GetBackup
                                                      (shared (run (take k3 sched) start))
                                                      (Name s)
                                                      (world (run (take k3 sched) start))) of
                                            Some b \<Rightarrow> DegradedResponse b resp
                                          | None \<Rightarrow> resp)
                                    else resp)))
             \<and> (\<forall>pre post. i \<notin> set pre \<and> sched = pre @ replicate 5 i @ post \<longrightarrow>
                    results final n =
                      Some (fst (fetchCached (shared (run pre start)) s
                                   (world (run pre start)))))))
       \<and> All_Timestamp d =
           Format_RFC3339_UTC (clock (world final) (ticks (world final)))
       \<and> c' = shared final
       \<and> e' = (world final)\<lparr>ticks := Suc (ticks (world final))\<rparr>)
    \<and> ((\<forall>j < length sources. 5 \<le> count_list sched j)
        \<longrightarrow> fetchAll c sources sched e \<noteq> None))"
proof -
  let ?start = "start_config c sources e"
  let ?final = "run sched ?start"
  have returns: "fetchAll c sources sched e \<noteq> None \<longleftrightarrow> all_done ?final"
    by (simp add: fetchAll_def Let_def time_Now_def)
  have fair: "fetchAll c sources sched e \<noteq> None"
    if "\<forall>j < length sources. 5 \<le> count_list sched j"
    using that by (rule fetchAll_fair)
  {
    assume ret: "fetchAll c sources sched e = Some (d, c', e')"
    have fin: "all_done ?final"
      using fetchAll_Some(1) [OF ret] .
    have entries: "\<forall>n \<in> fst ` set sources. results ?final n \<noteq> None"
    proof
      fix n assume "n \<in> fst ` set sources"
      then have "n \<in> (\<lambda>(n, s, st). n) ` set (tasks ?start)"
        by (simp only: start_config_tasks)
      with fin show "results ?final n \<noteq> None"
        by (intro all_done_results) (simp_all add: start_config_tasks)
    qed
    have fields: "Weather d = results ?final ''weather''"
      "Transport d = results ?final ''transport''"
      "Temperature d = results ?final ''temperature''"
      "Electricity d = results ?final ''electricity''"
      "Tempo d = results ?final ''tempo''"
      and stamp: "All_Timestamp d =
                    Format_RFC3339_UTC (clock (world ?final) (ticks (world ?final)))"
      using fetchAll_Some(2) [OF ret] by simp_all
    have five: "Weather d \<noteq> None \<and> Transport d \<noteq> None \<and> Temperature d \<noteq> None
                  \<and> Electricity d \<noteq> None \<and> Tempo d \<noteq> None"
      if "fst ` set sources =
            {''weather'', ''transport'', ''temperature'', ''electricity'', ''tempo''}"
      using entries that by (simp add: fields)
    have each: "(\<exists>k1 k2 k3. k1 \<le> k2 \<and> k2 \<le> k3 \<and> k3 \<le> length sched
                   \<and> results ?final n =
                       Some (response_at s (run (take k1 sched) ?start)
                               (run (take k2 sched) ?start) (run (take k3 sched) ?start)))
                \<and> (\<forall>pre post. i \<notin> set pre \<and> sched = pre @ replicate 5 i @ post \<longrightarrow>
                      results ?final n =
                        Some (fst (fetchCached (shared (run pre ?start)) s
                                     (world (run pre ?start)))))"
      if keys: "distinct (map fst sources)" and i: "i < length sources"
        and src: "sources ! i = (n, s)" for i n s
    proof -
      have len: "i < length (tasks ?start)"
        using i by (simp add: start_config_def)
      have t: "tasks ?start ! i = (n, s, Start)"
        using i src by (simp add: start_config_def)
      have keys': "distinct (map fst (tasks ?start))"
        using keys by (simp add: start_config_def comp_def case_prod_beta)
      have "task_state ?final i = Done"
        using fin len by (simp add: all_done_iff run_length)
      with run_accounted [OF len t keys', of sched]
      have "accounted (\<lambda>k. run (take k sched) ?start) (length sched) s Done
              (results ?final n)"
        by simp
      then have first: "\<exists>k1 k2 k3. k1 \<le> k2 \<and> k2 \<le> k3 \<and> k3 \<le> length sched
                   \<and> results ?final n =
                       Some (response_at s (run (take k1 sched) ?start)
                               (run (take k2 sched) ?start) (run (take k3 sched) ?start))"
        by (simp add: accounted_def account_def)
      have "results ?final n =
              Some (fst (fetchCached (shared (run pre ?start)) s (world (run pre ?start))))"
        if "i \<notin> set pre" and "sched = pre @ replicate 5 i @ post" for pre post
        using run_uninterrupted [OF len t keys' that(1), of post] that(2) by simp
      with first show ?thesis by blast
    qed
    have left: "c' = shared ?final"
      "e' = (world ?final)\<lparr>ticks := Suc (ticks (world ?final))\<rparr>"
      using fetchAll_Some(3,4) [OF ret] .
    note fin entries fields five each stamp left
  }
  note ret = this
  show ?thesis
    unfolding Let_def
    using returns fair ret
    unfolding response_at_def Let_def
    by (intro conjI impI allI) blast+
qed

lemma one_by_one_5:
  "one_by_one 5 = [0, 0, 0, 0, 0, 1, 1, 1, 1, 1, 2, 2, 2, 2, 2, 3, 3, 3, 3, 3, 4, 4, 4, 4, 4]"
  by code_simp

lemma in_turn_25:
  "in_turn = [0, 1, 2, 3, 4, 0, 1, 2, 3, 4, 0, 1, 2, 3, 4, 0, 1, 2, 3, 4, 0, 1, 2, 3, 4]"
  by code_simp

text \<open>
  The five sources of \<^verbatim>\<open>main\<close> without configuration, on an empty cache, the clock
  starting at \<open>T0\<close>. With the goroutines in turn and with the goroutines one after
  the other, \<^verbatim>\<open>fetchAll\<close> returns the four errors without payload and the payload of
  the temperature source, each entry with the timestamp of its own response, and the
  structure with the timestamp of the twelfth reading of the clock, taken after the
  last response was made. With the goroutines in turn, the entry of the temperature
  source is a cached response or the response of its \<^verbatim>\<open>Fetch\<close>; with the goroutines
  one after the other, the entry of the tempo source is what \<^verbatim>\<open>fetchCached\<close> returns
  after the first four goroutines. A schedule that stops after one step of each
  goroutine is not a return of \<^verbatim>\<open>fetchAll\<close>.
\<close>

theorem fetchAll_joins_witness:
  "map_option fst (fetchAll NewCache five_sources in_turn (env_from T0 0)) =
     Some \<lparr>Weather = Some \<lparr>Data = None, Timestamp = Format_RFC3339_UTC T0,
                            Error = ''weather not configured'', ExpiresAt = T0 + 1 + Hour\<rparr>,
           Transport = Some \<lparr>Data = None, Timestamp = Format_RFC3339_UTC (T0 + 2),
                              Error = ''transport not configured'', ExpiresAt = T0 + 3 + Hour\<rparr>,
           Temperature = Some \<lparr>Data = Some \<lparr>Sensor_Temperature = 21.5, Sensor_Humidity = 45,
                                              Sensor_Location = ''Living Room''\<rparr>,
                                Timestamp = Format_RFC3339_UTC (T0 + 4), Error = [],
                                ExpiresAt = T0 + 5 + 24 * Hour\<rparr>,
           Electricity = Some \<lparr>Data = None, Timestamp = Format_RFC3339_UTC (T0 + 6),
                                Error = ''electricity not configured'',
                                ExpiresAt = T0 + 7 + Hour\<rparr>,
           Tempo = Some \<lparr>Data = None, Timestamp = Format_RFC3339_UTC (T0 + 8),
                          Error = ''tempo not configured'', ExpiresAt = T0 + 9 + Hour\<rparr>,
           All_Timestamp = Format_RFC3339_UTC (T0 + 11)\<rparr>
   \<and> map_option fst (fetchAll NewCache five_sources (one_by_one 5) (env_from T0 0)) =
     Some \<lparr>Weather = Some \<lparr>Data = None, Timestamp = Format_RFC3339_UTC T0,
                            Error = ''weather not configured'', ExpiresAt = T0 + 1 + Hour\<rparr>,
           Transport = Some \<lparr>Data = None, Timestamp = Format_RFC3339_UTC (T0 + 2),
                              Error = ''transport not configured'', ExpiresAt = T0 + 3 + Hour\<rparr>,
           Temperature = Some \<lparr>Data = Some \<lparr>Sensor_Temperature = 21.5, Sensor_Humidity = 45,
                                              Sensor_Location = ''Living Room''\<rparr>,
                                Timestamp = Format_RFC3339_UTC (T0 + 4), Error = [],
                                ExpiresAt = T0 + 5 + 24 * Hour\<rparr>,
           Electricity = Some \<lparr>Data = None, Timestamp = Format_RFC3339_UTC (T0 + 7),
                                Error = ''electricity not configured'',
                                ExpiresAt = T0 + 8 + Hour\<rparr>,
           Tempo = Some \<lparr>Data = None, Timestamp = Format_RFC3339_UTC (T0 + 9),
                          Error = ''tempo not configured'', ExpiresAt = T0 + 10 + Hour\<rparr>,
           All_Timestamp = Format_RFC3339_UTC (T0 + 11)\<rparr>
   \<and> (\<exists>d c' e'. fetchAll NewCache five_sources in_turn (env_from T0 0) = Some (d, c', e')
         \<and> Weather d \<noteq> None \<and> Transport d \<noteq> None \<and> Temperature d \<noteq> None
         \<and> Electricity d \<noteq> None \<and> Tempo d \<noteq> None
         \<and> (\<exists>k1 k2 k3. k1 \<le> k2 \<and> k2 \<le> k3 \<and> k3 \<le> length in_turn
               \<and> Temperature d =
                   Some (case fst (Cache_Get (shared (run (take k1 in_turn) (start_config NewCache five_sources (env_from T0 0))))
                                     ''temperature'' (world (run (take k1 in_turn) (start_config NewCache five_sources (env_from T0 0))))) of
                           Some cached \<Rightarrow> cached
                         | None \<Rightarrow>
                             fst (TemperatureSource_Fetch
                                    (world (run (take k2 in_turn) (start_config NewCache five_sources (env_from T0 0))))))))
   \<and> (\<exists>d c' e'. fetchAll NewCache five_sources (one_by_one 5) (env_from T0 0) = Some (d, c', e')
         \<and> Tempo d =
             Some (fst (fetchCached (shared (run (one_by_one 4) (start_config NewCache five_sources (env_from T0 0))))
                          TempoSource_unconfigured (world (run (one_by_one 4) (start_config NewCache five_sources (env_from T0 0)))))))
   \<and> fetchAll NewCache five_sources [0, 1, 2, 3, 4] (env_from T0 0) = None"
proof -
  let ?start = "start_config NewCache five_sources (env_from T0 0)"
  note evaluation = fetchAll_def start_config_def five_sources_def
    WeatherSource_unconfigured_def TransportSource_unconfigured_def TemperatureSource_def
    TemperatureSource_Fetch_def ElectricitySource_unconfigured_def TempoSource_unconfigured_def
    step_def all_done_def NewCache_def env_from_def Cache_Get_def Cache_GetBackup_def
    Cache_Set_def BackupResponse_def NewResponse_def ErrorResponse_def time_Now_def Let_def
  have names: "fst ` set five_sources =
                 {''weather'', ''transport'', ''temperature'', ''electricity'', ''tempo''}"
    and keys: "distinct (map fst five_sources)"
    and tempo: "4 < length five_sources" "five_sources ! 4 = (''tempo'', TempoSource_unconfigured)"
    and temperature: "2 < length five_sources"
      "five_sources ! 2 = (''temperature'', TemperatureSource)"
    by (simp_all add: five_sources_def)
  have fair: "\<forall>j < length five_sources. 5 \<le> count_list in_turn j"
    "\<forall>j < length five_sources. 5 \<le> count_list (one_by_one 5) j"
    unfolding one_by_one_5 in_turn_25
    by (simp_all add: five_sources_def less_Suc_eq numeral_eq_Suc)
  have alone: "4 \<notin> set (one_by_one 4)" "one_by_one 5 = one_by_one 4 @ replicate 5 4 @ []"
    by code_simp+
  have first: "map_option fst (fetchAll NewCache five_sources in_turn (env_from T0 0)) =
     Some \<lparr>Weather = Some \<lparr>Data = None, Timestamp = Format_RFC3339_UTC T0,
                            Error = ''weather not configured'', ExpiresAt = T0 + 1 + Hour\<rparr>,
           Transport = Some \<lparr>Data = None, Timestamp = Format_RFC3339_UTC (T0 + 2),
                              Error = ''transport not configured'', ExpiresAt = T0 + 3 + Hour\<rparr>,
           Temperature = Some \<lparr>Data = Some \<lparr>Sensor_Temperature = 21.5, Sensor_Humidity = 45,
                                              Sensor_Location = ''Living Room''\<rparr>,
                                Timestamp = Format_RFC3339_UTC (T0 + 4), Error = [],
                                ExpiresAt = T0 + 5 + 24 * Hour\<rparr>,
           Electricity = Some \<lparr>Data = None, Timestamp = Format_RFC3339_UTC (T0 + 6),
                                Error = ''electricity not configured'',
                                ExpiresAt = T0 + 7 + Hour\<rparr>,
           Tempo = Some \<lparr>Data = None, Timestamp = Format_RFC3339_UTC (T0 + 8),
                          Error = ''tempo not configured'', ExpiresAt = T0 + 9 + Hour\<rparr>,
           All_Timestamp = Format_RFC3339_UTC (T0 + 11)\<rparr>"
    by (simp add: in_turn_25 evaluation)
  have second: "map_option fst (fetchAll NewCache five_sources (one_by_one 5) (env_from T0 0)) =
     Some \<lparr>Weather = Some \<lparr>Data = None, Timestamp = Format_RFC3339_UTC T0,
                            Error = ''weather not configured'', ExpiresAt = T0 + 1 + Hour\<rparr>,
           Transport = Some \<lparr>Data = None, Timestamp = Format_RFC3339_UTC (T0 + 2),
                              Error = ''transport not configured'', ExpiresAt = T0 + 3 + Hour\<rparr>,
           Temperature = Some \<lparr>Data = Some \<lparr>Sensor_Temperature = 21.5, Sensor_Humidity = 45,
                                              Sensor_Location = ''Living Room''\<rparr>,
                                Timestamp = Format_RFC3339_UTC (T0 + 4), Error = [],
                                ExpiresAt = T0 + 5 + 24 * Hour\<rparr>,
           Electricity = Some \<lparr>Data = None, Timestamp = Format_RFC3339_UTC (T0 + 7),
                                Error = ''electricity not configured'',
                                ExpiresAt = T0 + 8 + Hour\<rparr>,
           Tempo = Some \<lparr>Data = None, Timestamp = Format_RFC3339_UTC (T0 + 9),
                          Error = ''tempo not configured'', ExpiresAt = T0 + 10 + Hour\<rparr>,
           All_Timestamp = Format_RFC3339_UTC (T0 + 11)\<rparr>"
    by (simp add: one_by_one_5 evaluation)
  have third: "(\<exists>d c' e'. fetchAll NewCache five_sources in_turn (env_from T0 0) = Some (d, c', e')
         \<and> Weather d \<noteq> None \<and> Transport d \<noteq> None \<and> Temperature d \<noteq> None
         \<and> Electricity d \<noteq> None \<and> Tempo d \<noteq> None
         \<and> (\<exists>k1 k2 k3. k1 \<le> k2 \<and> k2 \<le> k3 \<and> k3 \<le> length in_turn
               \<and> Temperature d =
                   Some (case fst (Cache_Get (shared (run (take k1 in_turn) ?start))
                                     ''temperature'' (world (run (take k1 in_turn) ?start))) of
                           Some cached \<Rightarrow> cached
                         | None \<Rightarrow>
                             fst (TemperatureSource_Fetch
                                    (world (run (take k2 in_turn) ?start))))))"
  proof -
    have "fetchAll NewCache five_sources in_turn (env_from T0 0) \<noteq> None"
      using fair(1)
      by (rule fetchAll_joins [of NewCache five_sources "env_from T0 0" in_turn,
            unfolded Let_def, THEN conjunct2, THEN conjunct2, THEN mp])
    then obtain d c' e' where
      ret: "fetchAll NewCache five_sources in_turn (env_from T0 0) = Some (d, c', e')"
      by auto
    note joins = fetchAll_joins [of NewCache five_sources "env_from T0 0" in_turn d c' e',
        unfolded Let_def, THEN conjunct2, THEN conjunct1, rule_format, OF ret]
    have present: "Weather d \<noteq> None \<and> Transport d \<noteq> None \<and> Temperature d \<noteq> None
         \<and> Electricity d \<noteq> None \<and> Tempo d \<noteq> None"
      using joins names by blast
    have field: "results (run in_turn ?start) ''temperature'' = Temperature d"
      using joins by simp
    have ok: "Error (fst (TemperatureSource_Fetch w)) = []" for w :: "nat env"
      by (simp add: TemperatureSource_Fetch_def NewResponse_def time_Now_def)
    note each = joins [THEN conjunct2, THEN conjunct2, THEN conjunct2, THEN conjunct2,
        THEN conjunct2, THEN conjunct2, THEN conjunct2, THEN conjunct2, THEN conjunct1,
        rule_format, OF keys, OF conjI [OF temperature], THEN conjunct1]
    have "\<exists>k1 k2 k3. k1 \<le> k2 \<and> k2 \<le> k3 \<and> k3 \<le> length in_turn
               \<and> Temperature d =
                   Some (case fst (Cache_Get (shared (run (take k1 in_turn) ?start))
                                     ''temperature'' (world (run (take k1 in_turn) ?start))) of
                           Some cached \<Rightarrow> cached
                         | None \<Rightarrow>
                             fst (TemperatureSource_Fetch
                                    (world (run (take k2 in_turn) ?start))))"
      using each by (simp add: field TemperatureSource_def ok cong: option.case_cong)
    with ret present show ?thesis by blast
  qed
  have fourth: "(\<exists>d c' e'. fetchAll NewCache five_sources (one_by_one 5) (env_from T0 0) = Some (d, c', e')
         \<and> Tempo d =
             Some (fst (fetchCached (shared (run (one_by_one 4) ?start))
                          TempoSource_unconfigured (world (run (one_by_one 4) ?start)))))"
  proof -
    have "fetchAll NewCache five_sources (one_by_one 5) (env_from T0 0) \<noteq> None"
      using fair(2)
      by (rule fetchAll_joins [of NewCache five_sources "env_from T0 0" "one_by_one 5",
            unfolded Let_def, THEN conjunct2, THEN conjunct2, THEN mp])
    then obtain d c' e' where
      ret: "fetchAll NewCache five_sources (one_by_one 5) (env_from T0 0) = Some (d, c', e')"
      by auto
    note joins = fetchAll_joins [of NewCache five_sources "env_from T0 0" "one_by_one 5" d c' e',
        unfolded Let_def, THEN conjunct2, THEN conjunct1, rule_format, OF ret]
    have field: "results (run (one_by_one 5) ?start) ''tempo'' = Tempo d"
      using joins by simp
    note each = joins [THEN conjunct2, THEN conjunct2, THEN conjunct2, THEN conjunct2,
        THEN conjunct2, THEN conjunct2, THEN conjunct2, THEN conjunct2, THEN conjunct1,
        rule_format, OF keys, OF conjI [OF tempo], THEN conjunct2, rule_format,
        OF conjI [OF alone]]
    have "Tempo d =
             Some (fst (fetchCached (shared (run (one_by_one 4) ?start))
                          TempoSource_unconfigured (world (run (one_by_one 4) ?start))))"
      using each by (simp only: field)
    with ret show ?thesis by blast
  qed
  have fifth: "fetchAll NewCache five_sources [0, 1, 2, 3, 4] (env_from T0 0) = None"
    by (simp add: evaluation)
  show ?thesis
    using first second third fourth fifth by (intro conjI)
qed

end
